theory Spec2Isabelle
  imports Main "HOL-Library.Sublist"
begin

text \<open>
  igo (gofi) fakes an interpreter for Go: every statement typed is appended to a program,
  the whole program is run again, and only the new part of its output is shown. This
  theory embeds \<open>igo.go\<close>: the session record, \<open>newLines\<close>, \<open>write\<close>, \<open>exec\<close>, the loop
  of \<open>session.run\<close> and the exit status of \<open>main\<close>. Strings are byte lists; panics are a
  result of their own. What the program gets from outside is given to the model: the
  answers of the toolchain as a list of rounds, standard input as a string, the faults of
  file operations, \<open>shlex.Split\<close>, the shell command and the capacity rule of the runtime
  as parameters.
\<close>

section \<open>Go strings: bytes, runes and the library functions igo.go calls\<close>

text \<open>
  A Go string is a sequence of bytes, here a \<open>string\<close> (a list of 8-bit \<open>char\<close>s).
  Where igo.go ranges over a string or converts it to \<open>[]rune\<close> the bytes are decoded as
  UTF-8; the decoder below follows the Go runtime: a malformed or truncated sequence yields
  the rune U+FFFD and consumes one byte.
\<close>

definition byte :: "char \<Rightarrow> nat" where
  "byte c = of_char c"

definition nl :: char where
  "nl = CHR 0x0A"

definition runeError :: nat where
  "runeError = 0xFFFD"

definition is_cont :: "char \<Rightarrow> bool" where
  "is_cont c = (0x80 \<le> byte c \<and> byte c \<le> 0xBF)"

text \<open>\<open>decode_rune s\<close> is the first rune of the non-empty string \<open>s\<close> and its width in bytes.\<close>

fun decode_rune :: "string \<Rightarrow> nat \<times> nat" where
  "decode_rune [] = (runeError, 1)"
| "decode_rune (c0 # cs) =
     (let b0 = byte c0 in
      if b0 < 0x80 then (b0, 1)
      else if 0xC0 \<le> b0 \<and> b0 < 0xE0 then
        (case cs of
           c1 # _ \<Rightarrow>
             if is_cont c1 then
               (let r = (b0 mod 32) * 64 + byte c1 mod 64
                in if 0x7F < r then (r, 2) else (runeError, 1))
             else (runeError, 1)
         | _ \<Rightarrow> (runeError, 1))
      else if 0xE0 \<le> b0 \<and> b0 < 0xF0 then
        (case cs of
           c1 # c2 # _ \<Rightarrow>
             if is_cont c1 \<and> is_cont c2 then
               (let r = (b0 mod 16) * 4096 + (byte c1 mod 64) * 64 + byte c2 mod 64
                in if 0x7FF < r \<and> \<not> (0xD800 \<le> r \<and> r \<le> 0xDFFF) then (r, 3)
                   else (runeError, 1))
             else (runeError, 1)
         | _ \<Rightarrow> (runeError, 1))
      else if 0xF0 \<le> b0 \<and> b0 < 0xF8 then
        (case cs of
           c1 # c2 # c3 # _ \<Rightarrow>
             if is_cont c1 \<and> is_cont c2 \<and> is_cont c3 then
               (let r = (b0 mod 8) * 262144 + (byte c1 mod 64) * 4096
                        + (byte c2 mod 64) * 64 + byte c3 mod 64
                in if 0xFFFF < r \<and> r \<le> 0x10FFFF then (r, 4) else (runeError, 1))
             else (runeError, 1)
         | _ \<Rightarrow> (runeError, 1))
      else (runeError, 1))"

text \<open>
  \<open>for i, r := range s\<close>: the runes of \<open>s\<close>, each with the byte offset where it starts.
  A rune of width \<open>w\<close> takes the byte \<open>c\<close> and the \<open>w - 1\<close> bytes after it.
\<close>

fun range_str :: "nat \<Rightarrow> string \<Rightarrow> (nat \<times> nat) list" where
  "range_str i [] = []"
| "range_str i (c # cs) =
     (let (r, w) = decode_rune (c # cs)
      in (i, r) # range_str (i + w) (drop (w - 1) cs))"

text \<open>\<open>[]rune(s)\<close>: the runes alone.\<close>

definition runes_of :: "string \<Rightarrow> nat list" where
  "runes_of s = map snd (range_str 0 s)"

text \<open>
  \<open>string(rs)\<close> for a rune slice: every rune is encoded as UTF-8, a surrogate or a value
  above U+10FFFF as U+FFFD.
\<close>

definition encode_rune :: "nat \<Rightarrow> string" where
  "encode_rune r =
     (if r \<le> 0x7F then [char_of r]
      else if r \<le> 0x7FF then [char_of (0xC0 + r div 64), char_of (0x80 + r mod 64)]
      else if 0x10FFFF < r \<or> (0xD800 \<le> r \<and> r \<le> 0xDFFF) then
        [CHR 0xEF, CHR 0xBF, CHR 0xBD]
      else if r \<le> 0xFFFF then
        [char_of (0xE0 + r div 4096), char_of (0x80 + (r div 64) mod 64),
         char_of (0x80 + r mod 64)]
      else
        [char_of (0xF0 + r div 262144), char_of (0x80 + (r div 4096) mod 64),
         char_of (0x80 + (r div 64) mod 64), char_of (0x80 + r mod 64)])"

definition string_of_runes :: "nat list \<Rightarrow> string" where
  "string_of_runes rs = concat (map encode_rune rs)"

text \<open>
  \<open>strings.Index(s, p)\<close>: the byte offset of the first occurrence of \<open>p\<close> in \<open>s\<close>,
  \<open>-1\<close> when there is none.
\<close>

fun str_index :: "string \<Rightarrow> string \<Rightarrow> nat option" where
  "str_index [] p = (if p = [] then Some 0 else None)"
| "str_index (c # cs) p =
     (if prefix p (c # cs) then Some 0 else map_option Suc (str_index cs p))"

definition Index :: "string \<Rightarrow> string \<Rightarrow> int" where
  "Index s p = (case str_index s p of None \<Rightarrow> - 1 | Some i \<Rightarrow> int i)"

definition Contains :: "string \<Rightarrow> string \<Rightarrow> bool" where
  "Contains s p = (0 \<le> Index s p)"

definition HasPrefix :: "string \<Rightarrow> string \<Rightarrow> bool" where
  "HasPrefix s p = prefix p s"

definition TrimSuffix :: "string \<Rightarrow> string \<Rightarrow> string" where
  "TrimSuffix s suf = (if suffix suf s then take (length s - length suf) s else s)"

text \<open>\<open>strings.Count(s, "\n")\<close>: with a separator of one byte, the number of such bytes.\<close>

definition Count_nl :: "string \<Rightarrow> nat" where
  "Count_nl s = count_list s nl"

text \<open>\<open>strings.Split(s, "\n")\<close>; \<open>split_from cur s\<close> has the piece being read in \<open>cur\<close>.\<close>

fun split_from :: "string \<Rightarrow> string \<Rightarrow> string list" where
  "split_from cur [] = [cur]"
| "split_from cur (c # cs) =
     (if c = nl then cur # split_from [] cs else split_from (cur @ [c]) cs)"

definition Split_nl :: "string \<Rightarrow> string list" where
  "Split_nl s = split_from [] s"

section \<open>The session and the Output Delta Extractor\<close>

record session =
  dir :: string  \<comment> \<open>working directory\<close>
  pth :: string  \<comment> \<open>path to the source file\<close>
  src :: string  \<comment> \<open>source code of the skeleton\<close>
  off :: nat     \<comment> \<open>offset to the last bracket of main()\<close>
  frm :: nat     \<comment> \<open>last printed line\<close>
  usr :: string  \<comment> \<open>user code\<close>
  rem :: string  \<comment> \<open>remaining output after EOF\<close>

text \<open>A call either returns or panics (a slice expression out of range).\<close>

datatype 'a go = Returns 'a | Panics

definition eof :: string where
  "eof = CHR 0x00 # ''igo:EOF\<newline>''"

text \<open>
  The loop of \<open>newLines\<close> over the runes of the output: \<open>Some i\<close> when it breaks with
  \<open>start = i\<close>, \<open>None\<close> when it runs to the end and \<open>start\<close> keeps \<open>len(output)\<close>.
\<close>

fun find_start :: "nat \<Rightarrow> nat \<Rightarrow> (nat \<times> nat) list \<Rightarrow> nat option" where
  "find_start f count [] = None"
| "find_start f count ((i, r) # rest) =
     (if f \<le> count then Some i
      else find_start f (if r = byte nl then count + 1 else count) rest)"

text \<open>
  The slice expression \<open>a[lo:hi]\<close> on a rune slice \<open>a\<close> of capacity \<open>cp\<close>: Go checks
  \<open>lo \<le> hi \<le> cap(a)\<close>, not \<open>len(a)\<close>, and the elements between length and capacity
  are the zeroes the runtime left in the backing array. The capacity that the conversion
  \<open>[]rune(output)\<close> allocates is the runtime's choice: it is a parameter \<open>rcap\<close> of the
  model, from the number of runes to the capacity, never taken below the length.
\<close>

definition slice_runes :: "nat list \<Rightarrow> nat \<Rightarrow> nat \<Rightarrow> nat \<Rightarrow> nat list go" where
  "slice_runes a cp lo hi =
     (if lo \<le> hi \<and> hi \<le> max cp (length a)
      then Returns (take (hi - lo) (drop lo (a @ replicate (cp - length a) 0)))
      else Panics)"

definition newLines :: "(nat \<Rightarrow> nat) \<Rightarrow> session \<Rightarrow> string \<Rightarrow> (string \<times> session) go" where
  "newLines rcap s output =
     (let start = (case find_start (frm s) 0 (range_str 0 output) of
                     Some i \<Rightarrow> i | None \<Rightarrow> length output);
          end0 = Index output eof;
          endi = (if end0 < int start then int (length output) else end0);
          runes = runes_of output;
          n = endi + int (length eof);
          s' = (if n < int (length runes)
                then s\<lparr>rem := TrimSuffix (string_of_runes (drop (nat n) runes)) [nl] @ [nl]\<rparr>
                else s\<lparr>rem := []\<rparr>)
      in case slice_runes runes (rcap (length runes)) start (nat endi) of
           Panics \<Rightarrow> Panics
         | Returns d \<Rightarrow> Returns (string_of_runes d, s'))"


section \<open>More of the string library: white space and the diagnostic pattern\<close>

text \<open>\<open>unicode.IsSpace\<close>, on a rune.\<close>

definition is_space :: "nat \<Rightarrow> bool" where
  "is_space r =
     ((0x09 \<le> r \<and> r \<le> 0x0D) \<or> r = 0x20 \<or> r = 0x85 \<or> r = 0xA0 \<or> r = 0x1680
      \<or> (0x2000 \<le> r \<and> r \<le> 0x200A) \<or> r = 0x2028 \<or> r = 0x2029 \<or> r = 0x202F
      \<or> r = 0x205F \<or> r = 0x3000)"

text \<open>
  \<open>strings.TrimSpace\<close>: leading and trailing runes that are white space are cut off.
  \<open>rune_chunks s\<close> cuts \<open>s\<close> into the byte sequences of its runes.
\<close>

fun TrimLeft :: "string \<Rightarrow> string" where
  "TrimLeft [] = []"
| "TrimLeft (c # cs) =
     (let (r, w) = decode_rune (c # cs)
      in if is_space r then TrimLeft (drop (w - 1) cs) else c # cs)"

fun rune_chunks :: "string \<Rightarrow> string list" where
  "rune_chunks [] = []"
| "rune_chunks (c # cs) =
     (let (r, w) = decode_rune (c # cs)
      in take w (c # cs) # rune_chunks (drop (w - 1) cs))"

definition TrimRight :: "string \<Rightarrow> string" where
  "TrimRight s =
     concat (rev (dropWhile (\<lambda>ch. is_space (fst (decode_rune ch))) (rev (rune_chunks s))))"

definition TrimSpace :: "string \<Rightarrow> string" where
  "TrimSpace s = TrimRight (TrimLeft s)"

text \<open>
  \<open>builderr\<close> is the pattern \<^verbatim>\<open>^(\./[^\s:]+):(\d+):(\d+):\s*(.+)$\<close>. A match gives the four
  groups: file, line, column, message. \<^verbatim>\<open>\s\<close> is tab, newline, form feed, carriage return
  and space; \<^verbatim>\<open>.\<close> is any character but newline; the greedy \<^verbatim>\<open>\s*\<close> gives back its last
  character when nothing else is left for the message.
\<close>

definition is_ws :: "char \<Rightarrow> bool" where
  "is_ws c = (c = CHR 0x09 \<or> c = CHR 0x0A \<or> c = CHR 0x0C \<or> c = CHR 0x0D \<or> c = CHR 0x20)"

definition is_digit :: "char \<Rightarrow> bool" where
  "is_digit c = (0x30 \<le> byte c \<and> byte c \<le> 0x39)"

definition message_group :: "string \<Rightarrow> string option" where
  "message_group t =
     (let m = dropWhile is_ws t
      in if t = [] \<or> nl \<in> set m then None
         else if m = [] then (if last t = nl then None else Some [last t])
         else Some m)"

definition builderr :: "string \<Rightarrow> (string \<times> string \<times> string \<times> string) option" where
  "builderr l =
     (case l of
        c0 # c1 # t0 \<Rightarrow>
          if c0 = CHR ''.'' \<and> c1 = CHR ''/'' then
            (let name = takeWhile (\<lambda>c. \<not> is_ws c \<and> c \<noteq> CHR '':'') t0;
                 t1 = dropWhile (\<lambda>c. \<not> is_ws c \<and> c \<noteq> CHR '':'') t0;
                 ln = takeWhile is_digit (drop 1 t1);
                 t2 = dropWhile is_digit (drop 1 t1);
                 col = takeWhile is_digit (drop 1 t2);
                 t3 = dropWhile is_digit (drop 1 t2)
             in if name \<noteq> [] \<and> ln \<noteq> [] \<and> col \<noteq> []
                   \<and> take 1 t1 = '':'' \<and> take 1 t2 = '':'' \<and> take 1 t3 = '':''
                then (case message_group (drop 1 t3) of
                        None \<Rightarrow> None
                      | Some m \<Rightarrow> Some (c0 # c1 # name, ln, col, m))
                else None)
          else None
      | _ \<Rightarrow> None)"

definition unused :: string where
  "unused = ''declared and not used: ''"

definition foundEOF :: string where
  "foundEOF = ''found '' @ [CHR 0x27] @ ''EOF'' @ [CHR 0x27]"

section \<open>The file system, the toolchain and the Program Assembler\<close>

text \<open>
  The world outside the session: the files, and what has been printed. What the
  environment answers is given to the model: a \<open>fault\<close> says whether and where a file
  operation fails (opening, or the \<open>k\<close>-th write after \<open>n\<close> bytes), an \<open>attempt\<close> holds the
  answers to one round of \<open>exec\<close>: the fault met by \<open>write\<close>, the result of
  \<open>imports.Process\<close> (an error text or the formatted source), the fault met by
  \<open>os.WriteFile\<close>, and the combined output of \<open>go run\<close> with whether it returned an error.
\<close>

record world =
  files :: "string \<rightharpoonup> string"
  stdout :: string
  stderr :: string

datatype fault = NoFault | OpenFault string | WriteFault nat nat string

record attempt =
  wfault :: fault
  imports_out :: "string + string"
  rewrite :: fault
  run_output :: string
  run_err :: bool

text \<open>
  The closure \<open>w\<close> of \<open>write\<close>, over the chunks in order: once a write has failed the
  later ones do nothing. The result is what reached the file, and the error.
\<close>

fun w_chunks :: "fault \<Rightarrow> nat \<Rightarrow> string list \<Rightarrow> string \<times> string option" where
  "w_chunks flt i [] = ([], None)"
| "w_chunks flt i (b # bs) =
     (case flt of
        WriteFault k n e \<Rightarrow>
          if k = i then (take n b, Some e)
          else (let (c, r) = w_chunks flt (i + 1) bs in (b @ c, r))
      | _ \<Rightarrow> (let (c, r) = w_chunks flt (i + 1) bs in (b @ c, r)))"

definition println_eof :: string where
  "println_eof = ''println('' @ [CHR 0x22, CHR 0x5C] @ ''000igo:EOF'' @ [CHR 0x22] @ '')''"

text \<open>
  \<open>write_go\<close> is the method \<open>write\<close> (a reserved word here): \<open>os.Create\<close>
  truncates the file, then the six chunks are written. The slices
  \<open>s.src[:s.off]\<close> and \<open>s.src[s.off:]\<close> panic when \<open>off\<close> is beyond the source (the
  capacity of \<open>src\<close> is taken to be its length, so it is the first slice that panics,
  after the file was truncated and before anything is written).
\<close>

definition write_go ::
  "session \<Rightarrow> string \<Rightarrow> fault \<Rightarrow> (string \<rightharpoonup> string) \<Rightarrow> (string option \<times> (string \<rightharpoonup> string)) go"
where
  "write_go s input flt fs =
     (case flt of
        OpenFault e \<Rightarrow> Returns (Some e, fs)
      | _ \<Rightarrow>
          if length (src s) < off s then Panics
          else
            (let (content, err) =
                   w_chunks flt 0
                     [take (off s) (src s), [nl], usr s, input, println_eof,
                      drop (off s) (src s)]
             in Returns (err, fs(pth s \<mapsto> content))))"

definition WriteFile ::
  "string \<Rightarrow> string \<Rightarrow> fault \<Rightarrow> (string \<rightharpoonup> string) \<Rightarrow> string option \<times> (string \<rightharpoonup> string)"
where
  "WriteFile p b flt fs =
     (case flt of
        OpenFault e \<Rightarrow> (Some e, fs)
      | _ \<Rightarrow> (let (content, err) = w_chunks flt 0 [b] in (err, fs(p \<mapsto> content))))"

section \<open>exec: assemble, run, fix\<close>

datatype error = errEOF | Err string

datatype status = Ok | Fail error | Panic

text \<open>The body of the loop over the lines of a failed build, on one line.\<close>

definition fix_line :: "string \<Rightarrow> bool \<times> string \<Rightarrow> bool \<times> string" where
  "fix_line l acc =
     (case builderr l of
        None \<Rightarrow> acc
      | Some (f, ln, col, m) \<Rightarrow>
          if HasPrefix m unused
          then (True, snd acc @ ''_ = '' @ drop (length unused) m @ [nl])
          else acc)"

text \<open>
  \<open>exec_loop\<close> is \<open>exec\<close> from the label \<open>rerun\<close>, with \<open>input\<close> already ended by a
  newline and the fixes so far. Each round takes the next \<open>attempt\<close>; \<open>None\<close> says that the
  answers given have run out and the loop has not returned yet. When \<open>write\<close> panics the
  program file is left empty, as \<open>os.Create\<close> has truncated it.
\<close>

fun exec_loop ::
  "(nat \<Rightarrow> nat) \<Rightarrow> session \<Rightarrow> string \<Rightarrow> string \<Rightarrow> world \<Rightarrow> attempt list
     \<Rightarrow> (status \<times> session \<times> world \<times> attempt list) option"
where
  "exec_loop rcap s input fixes w [] = None"
| "exec_loop rcap s input fixes w (a # tool) =
     (case write_go s (input @ fixes) (wfault a) (files w) of
        Panics \<Rightarrow> Some (Panic, s, w\<lparr>files := (files w)(pth s \<mapsto> [])\<rparr>, tool)
      | Returns (Some e, fs) \<Rightarrow>
          Some (Fail (Err (''failed to write file: '' @ e)), s, w\<lparr>files := fs\<rparr>, tool)
      | Returns (None, fs) \<Rightarrow>
          (case imports_out a of
             Inl e \<Rightarrow>
               if Contains e foundEOF then Some (Fail errEOF, s, w\<lparr>files := fs\<rparr>, tool)
               else Some (Fail (Err (''failed to process imports: '' @ e)), s,
                          w\<lparr>files := fs\<rparr>, tool)
           | Inr buf \<Rightarrow>
               (case WriteFile (pth s) buf (rewrite a) fs of
                  (Some e, fs') \<Rightarrow>
                    Some (Fail (Err (''failed to write file: '' @ e)), s,
                          w\<lparr>files := fs'\<rparr>, tool)
                | (None, fs') \<Rightarrow>
                    (let w' = w\<lparr>files := fs'\<rparr>; output = run_output a in
                     if run_err a then
                       (if HasPrefix (last (Split_nl (TrimSuffix output [nl]))) ''exit status ''
                        then
                          (case newLines rcap s output of
                             Panics \<Rightarrow> Some (Panic, s, w', tool)
                           | Returns (d, s1) \<Rightarrow>
                               Some (Fail (Err (TrimSuffix d [nl])), s1, w', tool))
                        else
                          (case fold fix_line (Split_nl output) (False, fixes) of
                             (True, fixes') \<Rightarrow> exec_loop rcap s input fixes' w' tool
                           | (False, _) \<Rightarrow>
                               Some (Fail (Err (TrimSuffix output [nl])), s, w', tool)))
                     else
                       (let s1 = s\<lparr>usr := usr s @ input\<rparr> in
                        case newLines rcap s1 output of
                          Panics \<Rightarrow> Some (Panic, s1, w', tool)
                        | Returns (d, s2) \<Rightarrow>
                            (let out = TrimSuffix d [nl];
                                 w'' = (if out \<noteq> []
                                        then w'\<lparr>stdout := stdout w' @ out @ [nl]\<rparr> else w')
                             in case newLines rcap s2 output of
                                  Panics \<Rightarrow> Some (Panic, s2, w'', tool)
                                | Returns (d2, s3) \<Rightarrow>
                                    Some (Ok, s3\<lparr>frm := frm s3 + Count_nl d2\<rparr>, w'',
                                          tool)))))))"

definition exec ::
  "(nat \<Rightarrow> nat) \<Rightarrow> session \<Rightarrow> string \<Rightarrow> world \<Rightarrow> attempt list
     \<Rightarrow> (status \<times> session \<times> world \<times> attempt list) option"
where
  "exec rcap s input w tool = exec_loop rcap s (input @ [nl]) [] w tool"


section \<open>The session loop\<close>

text \<open>
  What the loop needs from outside: the capacity rule of the runtime (see \<open>slice_runes\<close>),
  \<open>shlex.Split\<close> (an error text or the words), and the shell command run in a directory,
  which gives a result and may change files.
\<close>

datatype cmdres = CmdOk string | CmdExit string | CmdErr string

record env =
  rcap :: "nat \<Rightarrow> nat"
  shlex_split :: "string \<Rightarrow> string + string list"
  command :: "string \<Rightarrow> string list \<Rightarrow> (string \<rightharpoonup> string) \<Rightarrow> cmdres \<times> (string \<rightharpoonup> string)"

text \<open>
  \<open>ReadString('\n')\<close> on the rest of standard input: the line with its newline and what
  follows, or an error when the input ends before a newline.
\<close>

definition ReadString :: "string \<Rightarrow> (string \<times> string) option" where
  "ReadString ins =
     (if nl \<in> set ins
      then Some (takeWhile (\<lambda>c. c \<noteq> nl) ins @ [nl], drop 1 (dropWhile (\<lambda>c. c \<noteq> nl) ins))
      else None)"

text \<open>
  What one line that was read leads to: the next prompt, another read for the same
  statement (\<open>goto read\<close>, with the text so far), the return of \<open>run\<close>, or a panic.
\<close>

datatype action = Prompt | Read string | Return "error option" | Crash

definition process_line ::
  "env \<Rightarrow> string \<Rightarrow> session \<Rightarrow> world \<Rightarrow> attempt list \<Rightarrow> string
     \<Rightarrow> (action \<times> session \<times> world \<times> attempt list) option"
where
  "process_line ev line s w tool raw =
     (let input = TrimSpace raw in
      if input = ''.quit'' \<or> input = ''.exit''
      then Some (Return None, s, w\<lparr>stdout := stdout w @ rem s\<rparr>, tool)
      else if HasPrefix input '':'' then
        (case shlex_split ev (drop 1 input) of
           Inl e \<Rightarrow> Some (Prompt, s, w\<lparr>stderr := stderr w @ ''bad command: '' @ e\<rparr>, tool)
         | Inr argv \<Rightarrow>
             if argv = []
             then Some (Prompt, s, w\<lparr>stderr := stderr w @ ''bad command: %!s(<nil>)''\<rparr>, tool)
             else
               (case command ev (dir s) argv (files w) of
                  (CmdOk out, fs) \<Rightarrow> Some (Prompt, s, w\<lparr>files := fs\<rparr>, tool)
                | (CmdExit out, fs) \<Rightarrow>
                    Some (Prompt, s,
                          w\<lparr>files := fs,
                            stderr := stderr w @ ''command failed: '' @ TrimSuffix out [nl] @ [nl]\<rparr>,
                          tool)
                | (CmdErr e, fs) \<Rightarrow>
                    Some (Prompt, s,
                          w\<lparr>files := fs, stderr := stderr w @ ''command failed: '' @ e @ [nl]\<rparr>,
                          tool)))
      else
        (case exec (rcap ev) s (line @ input) w tool of
           None \<Rightarrow> None
         | Some (Fail errEOF, s', w', tool') \<Rightarrow> Some (Read (line @ input), s', w', tool')
         | Some (Fail (Err e), s', w', tool') \<Rightarrow>
             Some (Prompt, s', w'\<lparr>stderr := stderr w' @ e @ [nl]\<rparr>, tool')
         | Some (Ok, s', w', tool') \<Rightarrow> Some (Prompt, s', w', tool')
         | Some (Panic, s', w', tool') \<Rightarrow> Some (Crash, s', w', tool')))"

text \<open>
  \<open>session_read\<close> is the loop of \<open>session.run\<close> from the label \<open>read\<close>, with the
  variable \<open>line\<close>; a new turn of the loop prints the prompt and starts with an empty
  \<open>line\<close>.
\<close>

function session_read ::
  "env \<Rightarrow> string \<Rightarrow> session \<Rightarrow> world \<Rightarrow> attempt list \<Rightarrow> string
     \<Rightarrow> (error option go \<times> session \<times> world) option"
where
  "session_read ev line s w tool ins =
     (case ReadString ins of
        None \<Rightarrow> Some (Returns (Some (Err ''failed to read input: EOF'')), s, w)
      | Some (raw, rest) \<Rightarrow>
          (case process_line ev line s w tool raw of
             None \<Rightarrow> None
           | Some (Return r, s', w', tool') \<Rightarrow> Some (Returns r, s', w')
           | Some (Crash, s', w', tool') \<Rightarrow> Some (Panics, s', w')
           | Some (Prompt, s', w', tool') \<Rightarrow>
               session_read ev [] s' (w'\<lparr>stdout := stdout w' @ ''> ''\<rparr>) tool' rest
           | Some (Read l, s', w', tool') \<Rightarrow> session_read ev l s' w' tool' rest))"
  by pat_completeness auto

termination session_read
proof -
  have shorter: "length rest < length ins" if a: "ReadString ins = Some (raw, rest)"
    for ins raw rest
  proof -
    from a have m: "nl \<in> set ins" and r: "rest = drop 1 (dropWhile (\<lambda>c. c \<noteq> nl) ins)"
      by (auto simp: ReadString_def split: if_splits)
    from m have "dropWhile (\<lambda>c. c \<noteq> nl) ins \<noteq> []"
      by simp
    then have "length (drop 1 (dropWhile (\<lambda>c. c \<noteq> nl) ins))
                 < length (dropWhile (\<lambda>c. c \<noteq> nl) ins)"
      by simp
    also have "\<dots> \<le> length ins"
      by (rule length_dropWhile_le)
    finally show ?thesis using r by simp
  qed
  show ?thesis
    by (relation "measure (\<lambda>(ev, line, s, w, tool, ins). length ins)")
       (auto dest: shorter)
qed

declare session_read.simps [simp del]

definition session_run ::
  "env \<Rightarrow> session \<Rightarrow> world \<Rightarrow> attempt list \<Rightarrow> string \<Rightarrow> (error option go \<times> session \<times> world) option"
where
  "session_run ev s w tool ins = session_read ev [] s (w\<lparr>stdout := stdout w @ ''> ''\<rparr>) tool ins"

text \<open>
  The start of \<open>run\<close> (temporary directory, \<open>go mod init\<close>, reading and parsing the file
  given) is the environment's: it fails with a message or gives the session.
  \<open>main\<close> prints the error of \<open>run\<close> and exits with 1; it returns, status 0, otherwise.
\<close>

datatype startup = StartupError string | Started session

definition run ::
  "env \<Rightarrow> startup \<Rightarrow> world \<Rightarrow> attempt list \<Rightarrow> string \<Rightarrow> (error option go \<times> world) option"
where
  "run ev st w tool ins =
     (case st of
        StartupError e \<Rightarrow> Some (Returns (Some (Err e)), w)
      | Started s \<Rightarrow>
          (case session_run ev s w tool ins of
             None \<Rightarrow> None
           | Some (r, s', w') \<Rightarrow> Some (r, w')))"

definition error_text :: "error \<Rightarrow> string" where
  "error_text e = (case e of errEOF \<Rightarrow> ''bad EOF'' | Err m \<Rightarrow> m)"

definition main ::
  "env \<Rightarrow> startup \<Rightarrow> world \<Rightarrow> attempt list \<Rightarrow> string \<Rightarrow> (nat go \<times> world) option"
where
  "main ev st w tool ins =
     (case run ev st w tool ins of
        None \<Rightarrow> None
      | Some (Panics, w') \<Rightarrow> Some (Panics, w')
      | Some (Returns None, w') \<Rightarrow> Some (Returns 0, w')
      | Some (Returns (Some e), w') \<Rightarrow>
          Some (Returns 1, w'\<lparr>stderr := stderr w' @ error_text e @ [nl]\<rparr>))"


section \<open>Notions used in the statements\<close>

text \<open>
  A fault is silent for \<open>n\<close> writes when neither the opening nor any of the first \<open>n\<close>
  writes fails. A round of \<open>exec\<close> is completed when every step of it went through:
  the six writes of \<open>write\<close>, \<open>imports.Process\<close>, the write of \<open>os.WriteFile\<close> and
  \<open>go run\<close>.
\<close>

definition silent :: "fault \<Rightarrow> nat \<Rightarrow> bool" where
  "silent flt n =
     (case flt of NoFault \<Rightarrow> True | OpenFault e \<Rightarrow> False | WriteFault k m e \<Rightarrow> n \<le> k)"

definition completed :: "attempt \<Rightarrow> bool" where
  "completed a =
     (silent (wfault a) 6 \<and> \<not> isl (imports_out a) \<and> silent (rewrite a) 1 \<and> \<not> run_err a)"

text \<open>
  The session that \<open>run\<close> builds when no file is given, in the temporary directory \<open>d\<close>,
  an empty world, and rounds of the toolchain: one that runs the program with a given
  output and no error, one whose \<open>go run\<close> fails with a given output, and one where
  \<open>imports.Process\<close> fails with a given message.
\<close>

definition fresh :: "string \<Rightarrow> session" where
  "fresh d =
     \<lparr>dir = d, pth = d @ ''/main.go'', src = ''package main\<newline>\<newline>func main() {}\<newline>'',
      off = length ''package main\<newline>\<newline>func main() {}\<newline>'' - 2, frm = 0, usr = [], rem = []\<rparr>"

definition s0 :: session where
  "s0 = fresh ''/tmp/igo1''"

definition w0 :: world where
  "w0 = \<lparr>files = Map.empty, stdout = [], stderr = []\<rparr>"

definition runs :: "string \<Rightarrow> attempt" where
  "runs out =
     \<lparr>wfault = NoFault, imports_out = Inr ''package main'', rewrite = NoFault,
      run_output = out, run_err = False\<rparr>"

definition fails :: "string \<Rightarrow> attempt" where
  "fails out =
     \<lparr>wfault = NoFault, imports_out = Inr ''package main'', rewrite = NoFault,
      run_output = out, run_err = True\<rparr>"

definition rejects :: "string \<Rightarrow> attempt" where
  "rejects msg =
     \<lparr>wfault = NoFault, imports_out = Inl msg, rewrite = NoFault,
      run_output = [], run_err = False\<rparr>"

text \<open>
  An environment for the examples. The Go runtime converts a string of up to 32 runes in
  a buffer of 32 runes, so the slice has capacity 32. A longer conversion is allocated,
  four bytes a rune, and the allocator rounds the size up to one of its size classes, or
  to a multiple of the page size of 8192 bytes above the largest class; the capacity is
  what fits. \<open>shlex.Split\<close> gives its argument back as one word, and every command
  succeeds without output and leaves the files alone.
\<close>

definition size_classes :: "nat list" where
  "size_classes =
     [8, 16, 24, 32, 48, 64, 80, 96, 112, 128, 144, 160, 176, 192, 208, 224, 240, 256, 288, 320,
      352, 384, 416, 448, 480, 512, 576, 640, 704, 768, 896, 1024, 1152, 1280, 1408, 1536, 1792,
      2048, 2304, 2688, 3072, 3200, 3456, 4096, 4864, 5120, 5376, 6144, 6528, 6784, 6912, 8192,
      9472, 9728, 10240, 10880, 12288, 13568, 14336, 16384, 18432, 19072, 20480, 21760, 24576,
      27264, 28672, 32768]"

definition roundupsize :: "nat \<Rightarrow> nat" where
  "roundupsize m =
     (case filter (\<lambda>c. m \<le> c) size_classes of
        c # _ \<Rightarrow> c
      | [] \<Rightarrow> ((m + 8191) div 8192) * 8192)"

definition cap32 :: "nat \<Rightarrow> nat" where
  "cap32 n = (if n \<le> 32 then 32 else roundupsize (4 * n) div 4)"

definition ev0 :: env where
  "ev0 = \<lparr>rcap = cap32, shlex_split = (\<lambda>t. Inr [t]),
          command = (\<lambda>d argv fs. (CmdOk [], fs))\<rparr>"

text \<open>
  Rounds of the auto-fix loop. The build failed when everything up to \<open>go run\<close> went
  through and \<open>go run\<close> returned an error whose output does not end in an
  \<open>exit status\<close> line. Such a round is retrying when the output holds at least one
  unused-binding diagnostic. \<open>fixes_of\<close> is the text of the fixes that the round adds;
  \<open>after_rounds\<close> is the world after retrying rounds (the file holds the formatted source
  of the last one).
\<close>

definition fixes_of :: "attempt \<Rightarrow> string" where
  "fixes_of a = snd (fold fix_line (Split_nl (run_output a)) (False, []))"

definition build_failed :: "attempt \<Rightarrow> bool" where
  "build_failed a =
     (silent (wfault a) 6 \<and> \<not> isl (imports_out a) \<and> silent (rewrite a) 1 \<and> run_err a
      \<and> \<not> HasPrefix (last (Split_nl (TrimSuffix (run_output a) [nl]))) ''exit status '')"

definition retrying :: "attempt \<Rightarrow> bool" where
  "retrying a = (build_failed a \<and> fst (fold fix_line (Split_nl (run_output a)) (False, [])))"

text \<open>
  The error that a single run reports when it fails for another reason than unused
  bindings: a failure of \<open>write\<close>, an error of \<open>imports.Process\<close> (the incomplete-statement
  signal when the message holds \<open>found 'EOF'\<close>), a failure of \<open>os.WriteFile\<close>, a runtime
  error of the program (the delta of its output), or a build failure without any
  unused-binding diagnostic (the whole output). It is \<open>None\<close> for a run that succeeds, that
  is retried, or on whose output \<open>newLines\<close> panics.
\<close>

definition fault_text :: "fault \<Rightarrow> string" where
  "fault_text flt = (case flt of NoFault \<Rightarrow> [] | OpenFault e \<Rightarrow> e | WriteFault k n e \<Rightarrow> e)"

definition reported :: "(nat \<Rightarrow> nat) \<Rightarrow> session \<Rightarrow> attempt \<Rightarrow> error option" where
  "reported rc s a =
     (if \<not> silent (wfault a) 6
      then Some (Err (''failed to write file: '' @ fault_text (wfault a)))
      else
        (case imports_out a of
           Inl m \<Rightarrow>
             Some (if Contains m foundEOF then errEOF
                   else Err (''failed to process imports: '' @ m))
         | Inr buf \<Rightarrow>
             if \<not> silent (rewrite a) 1
             then Some (Err (''failed to write file: '' @ fault_text (rewrite a)))
             else if \<not> run_err a then None
             else if HasPrefix (last (Split_nl (TrimSuffix (run_output a) [nl]))) ''exit status ''
             then (case newLines rc s (run_output a) of
                     Panics \<Rightarrow> None
                   | Returns (d, s1) \<Rightarrow> Some (Err (TrimSuffix d [nl])))
             else if fst (fold fix_line (Split_nl (run_output a)) (False, [])) then None
             else Some (Err (TrimSuffix (run_output a) [nl]))))"

definition after_rounds :: "session \<Rightarrow> world \<Rightarrow> attempt list \<Rightarrow> world" where
  "after_rounds s w as =
     (if as = [] then w else w\<lparr>files := (files w)(pth s \<mapsto> projr (imports_out (last as)))\<rparr>)"

definition unused_x :: string where
  "unused_x = ''# command-line-arguments\<newline>./main.go:5:2: declared and not used: x\<newline>''"

definition panic_out :: string where
  "panic_out = ''panic: 2\<newline>exit status 2\<newline>''"

text \<open>
  The delta in plain terms, for an output of single-byte characters (every byte below
  128). \<open>skip_lines k s\<close> is what follows the first \<open>k\<close> newlines of \<open>s\<close> (nothing when
  there are fewer). \<open>delta_spec\<close> is the delta as the specification words it: it ends at
  the first sentinel found in what follows the start. \<open>delta\<close> is the delta of the code:
  it ends at the first sentinel of the whole output when that one is not before the
  start, and at the end of the output otherwise (\<open>delta_end\<close>); \<open>remainder\<close> is what the
  code keeps of the output behind the sentinel.
\<close>

definition ascii :: "string \<Rightarrow> bool" where
  "ascii s = (\<forall>c \<in> set s. byte c < 128)"

fun skip_lines :: "nat \<Rightarrow> string \<Rightarrow> string" where
  "skip_lines 0 s = s"
| "skip_lines (Suc k) s = (case dropWhile (\<lambda>c. c \<noteq> nl) s of [] \<Rightarrow> [] | c # r \<Rightarrow> skip_lines k r)"

definition delta_spec :: "nat \<Rightarrow> string \<Rightarrow> string" where
  "delta_spec f out =
     (let rest = skip_lines f out
      in case str_index rest eof of None \<Rightarrow> rest | Some e \<Rightarrow> take e rest)"

definition delta_end :: "nat \<Rightarrow> string \<Rightarrow> nat" where
  "delta_end f out =
     (let start = length out - length (skip_lines f out)
      in case str_index out eof of
           None \<Rightarrow> length out
         | Some e \<Rightarrow> if e < start then length out else e)"

definition delta :: "nat \<Rightarrow> string \<Rightarrow> string" where
  "delta f out =
     (let rest = skip_lines f out; start = length out - length rest
      in take (delta_end f out - start) rest)"

definition remainder :: "nat \<Rightarrow> string \<Rightarrow> string" where
  "remainder f out =
     (let n = delta_end f out + length eof
      in if n < length out then TrimSuffix (drop n out) [nl] @ [nl] else [])"



text \<open>Sample data: outputs, a message of \<open>imports.Process\<close>, and a string of eleven euro signs.\<close>

definition eof_msg :: string where
  "eof_msg = ''main.go:5:23: expected }, '' @ foundEOF"

definition euro :: string where
  "euro = [CHR 0xE2, CHR 0x82, CHR 0xAC]"

definition euros :: string where
  "euros = euro @ euro @ euro @ euro @ euro @ euro @ euro @ euro @ euro @ euro @ euro"

definition sample_out :: string where
  "sample_out = ''1\<newline>2\<newline>'' @ eof @ ''bye\<newline>''"

section \<open>Files written by the Program Assembler\<close>

lemma w_chunks_past:
  "k < i \<or> i + length bs \<le> k \<Longrightarrow> w_chunks (WriteFault k m e) i bs = (concat bs, None)"
  by (induction bs arbitrary: i) auto

lemma w_chunks_hit:
  "i \<le> k \<Longrightarrow> k < i + length bs \<Longrightarrow> snd (w_chunks (WriteFault k m e) i bs) = Some e"
  by (induction bs arbitrary: i) (auto simp: case_prod_beta)

lemma w_chunks_NoFault: "w_chunks NoFault i bs = (concat bs, None)"
  by (induction bs arbitrary: i) auto

lemma w_chunks_OpenFault: "w_chunks (OpenFault e) i bs = (concat bs, None)"
  by (induction bs arbitrary: i) auto

lemma w_chunks_None:
  assumes "w_chunks flt 0 bs = (c, None)"
  shows "c = concat bs \<and> ((\<forall>e. flt \<noteq> OpenFault e) \<longrightarrow> silent flt (length bs))"
proof (cases flt)
  case NoFault
  with assms show ?thesis by (simp add: w_chunks_NoFault silent_def)
next
  case (OpenFault e)
  with assms show ?thesis by (simp add: w_chunks_OpenFault)
next
  case (WriteFault k m e)
  show ?thesis
  proof (cases "k < length bs")
    case True
    then have "snd (w_chunks (WriteFault k m e) 0 bs) = Some e"
      by (intro w_chunks_hit) auto
    with assms WriteFault show ?thesis by simp
  next
    case False
    then have "w_chunks (WriteFault k m e) 0 bs = (concat bs, None)"
      by (intro w_chunks_past) auto
    with assms WriteFault False show ?thesis by (simp add: silent_def)
  qed
qed

lemma w_chunks_silent:
  "silent flt (length bs) \<Longrightarrow> w_chunks flt 0 bs = (concat bs, None)"
  by (cases flt) (auto simp: silent_def w_chunks_NoFault w_chunks_past)

lemma write_go_None:
  assumes "write_go s input flt fs = Returns (None, fs')"
  shows "off s \<le> length (src s) \<and> silent flt 6 \<and>
         fs' = fs(pth s \<mapsto> take (off s) (src s) @ [nl] @ usr s @ input @ println_eof
                               @ drop (off s) (src s))"
proof -
  from assms have o: "off s \<le> length (src s)" and nf: "\<forall>e. flt \<noteq> OpenFault e"
    by (auto simp: write_go_def split: fault.splits if_splits)
  with assms obtain c where
    c: "w_chunks flt 0 [take (off s) (src s), [nl], usr s, input, println_eof,
                        drop (off s) (src s)] = (c, None)"
    and f: "fs' = fs(pth s \<mapsto> c)"
    by (auto simp: write_go_def split: fault.splits prod.splits if_splits)
  from w_chunks_None[OF c] f o nf show ?thesis by (simp add: eval_nat_numeral)
qed

lemma write_go_silent:
  assumes "off s \<le> length (src s)" "silent flt 6"
  shows "write_go s input flt fs =
           Returns (None, fs(pth s \<mapsto> take (off s) (src s) @ [nl] @ usr s @ input @ println_eof
                                        @ drop (off s) (src s)))"
proof -
  have "w_chunks flt 0 [take (off s) (src s), [nl], usr s, input, println_eof, drop (off s) (src s)]
          = (concat [take (off s) (src s), [nl], usr s, input, println_eof, drop (off s) (src s)],
             None)"
    by (rule w_chunks_silent) (use assms in \<open>simp add: eval_nat_numeral\<close>)
  with assms show ?thesis
    by (cases flt) (auto simp: write_go_def silent_def)
qed

lemma WriteFile_None:
  assumes "WriteFile p b flt fs = (None, fs')"
  shows "silent flt 1 \<and> fs' = fs(p \<mapsto> b)"
proof -
  from assms have nf: "\<forall>e. flt \<noteq> OpenFault e"
    by (auto simp: WriteFile_def split: fault.splits)
  with assms obtain c where c: "w_chunks flt 0 [b] = (c, None)" and f: "fs' = fs(p \<mapsto> c)"
    by (auto simp: WriteFile_def split: fault.splits prod.splits)
  from w_chunks_None[OF c] f nf show ?thesis by simp
qed

lemma WriteFile_silent:
  assumes "silent flt 1"
  shows "WriteFile p b flt fs = (None, fs(p \<mapsto> b))"
proof -
  have "w_chunks flt 0 [b] = (concat [b], None)"
    by (rule w_chunks_silent) (use assms in simp)
  with assms show ?thesis
    by (cases flt) (auto simp: WriteFile_def silent_def)
qed



section \<open>What a call of exec leaves of the session\<close>

lemma newLines_session:
  "newLines rc s out = Returns (d, s') \<Longrightarrow> s' = s\<lparr>rem := rem s'\<rparr>"
  by (auto simp: newLines_def Let_def split: go.splits if_splits)

lemma newLines_again:
  "newLines rc s out = Returns (d, s') \<Longrightarrow> newLines rc s' out = Returns (d, s')"
  by (auto simp: newLines_def Let_def split: go.splits if_splits)

lemma exec_loop_inv:
  "exec_loop rc s input fx w tool = Some (st, s', w', tool') \<Longrightarrow>
     (\<exists>used a. tool = used @ a # tool' \<and> (st = Ok \<or> usr s' \<noteq> usr s \<longrightarrow> completed a)
         \<and> (st = Ok \<longrightarrow> (\<exists>d s2. newLines rc (s\<lparr>usr := usr s @ input\<rparr>) (run_output a) = Returns (d, s2)
                     \<and> s' = s2\<lparr>frm := frm s + Count_nl d\<rparr>)))
     \<and> (usr s' = usr s \<or> usr s' = usr s @ input)
     \<and> (st = Ok \<longrightarrow> usr s' = usr s @ input)
     \<and> (\<forall>e. st = Fail e \<longrightarrow> usr s' = usr s \<and> frm s' = frm s)
     \<and> dir s' = dir s \<and> pth s' = pth s \<and> src s' = src s \<and> off s' = off s"
proof (induction tool arbitrary: fx w)
  case Nil
  then show ?case by simp
next
  case (Cons a tool)
  have fin: ?case
    if "tool' = tool" and "st = Ok \<or> usr s' \<noteq> usr s \<longrightarrow> completed a"
      and "usr s' = usr s \<or> usr s' = usr s @ input"
      and "st = Ok \<longrightarrow> usr s' = usr s @ input"
      and "\<forall>e. st = Fail e \<longrightarrow> usr s' = usr s \<and> frm s' = frm s"
      and "dir s' = dir s \<and> pth s' = pth s \<and> src s' = src s \<and> off s' = off s"
      and "st = Ok \<longrightarrow> (\<exists>d s2. newLines rc (s\<lparr>usr := usr s @ input\<rparr>) (run_output a) = Returns (d, s2)
                     \<and> s' = s2\<lparr>frm := frm s + Count_nl d\<rparr>)"
  proof -
    from that(1) have "a # tool = [] @ a # tool'" by simp
    with that(2,7) have "\<exists>used b. a # tool = used @ b # tool'
        \<and> (st = Ok \<or> usr s' \<noteq> usr s \<longrightarrow> completed b)
        \<and> (st = Ok \<longrightarrow> (\<exists>d s2. newLines rc (s\<lparr>usr := usr s @ input\<rparr>) (run_output b) = Returns (d, s2)
                     \<and> s' = s2\<lparr>frm := frm s + Count_nl d\<rparr>))"
      by blast
    with that(3-6) show ?thesis by blast
  qed
  have same: ?case if "tool' = tool" and "s' = s" and "st \<noteq> Ok"
    using that by (intro fin) simp_all
  show ?case
  proof (cases "write_go s (input @ fx) (wfault a) (files w)")
    case Panics
    with Cons.prems have "tool' = tool \<and> s' = s \<and> st = Panic" by simp
    then show ?thesis by (intro same) simp_all
  next
    case (Returns p)
    obtain we fs where p: "p = (we, fs)" by (cases p)
    show ?thesis
    proof (cases we)
      case (Some e)
      with Cons.prems Returns p have "tool' = tool \<and> s' = s \<and> st \<noteq> Ok" by auto
      then show ?thesis by (intro same) simp_all
    next
      case None
      note wr = write_go_None[OF Returns[unfolded p None]]
      show ?thesis
      proof (cases "imports_out a")
        case (Inl e)
        with Cons.prems Returns p None have "tool' = tool \<and> s' = s \<and> st \<noteq> Ok"
          by (auto split: if_splits)
        then show ?thesis by (intro same) simp_all
      next
        case (Inr buf)
        obtain re fs' where wf: "WriteFile (pth s) buf (rewrite a) fs = (re, fs')"
          by (cases "WriteFile (pth s) buf (rewrite a) fs")
        show ?thesis
        proof (cases re)
          case (Some e)
          with Cons.prems Returns p None Inr wf have "tool' = tool \<and> s' = s \<and> st \<noteq> Ok"
            by auto
          then show ?thesis by (intro same) simp_all
        next
          case rn: None
          note wfn = WriteFile_None[OF wf[unfolded rn]]
          show ?thesis
          proof (cases "run_err a")
            case True
            show ?thesis
            proof (cases "HasPrefix (last (Split_nl (TrimSuffix (run_output a) [nl]))) ''exit status ''")
              case ex: True
              show ?thesis
              proof (cases "newLines rc s (run_output a)")
                case Panics
                with Cons.prems Returns p None Inr wf rn True ex
                have "tool' = tool \<and> s' = s \<and> st \<noteq> Ok" by (simp add: Let_def)
                then show ?thesis by (intro same) simp_all
              next
                case r1: (Returns q)
                obtain d s1 where q: "q = (d, s1)" by (cases q)
                note n1 = newLines_session[OF r1[unfolded q]]
                from Cons.prems Returns p None Inr wf rn True ex r1 q
                have e: "tool' = tool \<and> s' = s1 \<and> st = Fail (Err (TrimSuffix d [nl]))"
                  by (simp add: Let_def)
                have "usr s1 = usr s \<and> frm s1 = frm s \<and> dir s1 = dir s \<and> pth s1 = pth s
                      \<and> src s1 = src s \<and> off s1 = off s"
                  by (subst n1, simp)+
                with e show ?thesis by (intro fin) simp_all
              qed
            next
              case ex: False
              obtain fixed fx' where ff: "fold fix_line (Split_nl (run_output a)) (False, fx) = (fixed, fx')"
                by (cases "fold fix_line (Split_nl (run_output a)) (False, fx)")
              show ?thesis
              proof (cases fixed)
                case ft: True
                with Cons.prems Returns p None Inr wf rn True ex ff
                have "exec_loop rc s input fx' (w\<lparr>files := fs'\<rparr>) tool = Some (st, s', w', tool')"
                  by (simp add: Let_def)
                from Cons.IH[OF this] obtain used b where
                  u: "tool = used @ b # tool'" "st = Ok \<or> usr s' \<noteq> usr s \<longrightarrow> completed b"
                     "st = Ok \<longrightarrow> (\<exists>d s2. newLines rc (s\<lparr>usr := usr s @ input\<rparr>) (run_output b) = Returns (d, s2)
                     \<and> s' = s2\<lparr>frm := frm s + Count_nl d\<rparr>)"
                  and rest: "(usr s' = usr s \<or> usr s' = usr s @ input)
     \<and> (st = Ok \<longrightarrow> usr s' = usr s @ input)
     \<and> (\<forall>e. st = Fail e \<longrightarrow> usr s' = usr s \<and> frm s' = frm s)
     \<and> dir s' = dir s \<and> pth s' = pth s \<and> src s' = src s \<and> off s' = off s"
                  by blast
                from u(1) have "a # tool = (a # used) @ b # tool'" by simp
                with u(2,3) have "\<exists>used b. a # tool = used @ b # tool'
                    \<and> (st = Ok \<or> usr s' \<noteq> usr s \<longrightarrow> completed b)
                    \<and> (st = Ok \<longrightarrow> (\<exists>d s2. newLines rc (s\<lparr>usr := usr s @ input\<rparr>) (run_output b) = Returns (d, s2)
                     \<and> s' = s2\<lparr>frm := frm s + Count_nl d\<rparr>))"
                  by blast
                with rest show ?thesis by blast
              next
                case ft: False
                with Cons.prems Returns p None Inr wf rn True ex ff
                have "tool' = tool \<and> s' = s \<and> st \<noteq> Ok" by (auto simp: Let_def)
                then show ?thesis by (intro same) simp_all
              qed
            qed
          next
            case False
            have comp: "completed a"
              using wr wfn Inr False by (simp add: completed_def)
            define s1 where "s1 = s\<lparr>usr := usr s @ input\<rparr>"
            show ?thesis
            proof (cases "newLines rc s1 (run_output a)")
              case Panics
              with Cons.prems Returns p None Inr wf rn False
              have "tool' = tool \<and> s' = s1 \<and> st = Panic"
                by (simp add: Let_def s1_def)
              with comp show ?thesis by (intro fin) (simp_all add: s1_def)
            next
              case r1: (Returns q)
              obtain d s2 where q: "q = (d, s2)" by (cases q)
              note n1 = newLines_session[OF r1[unfolded q]]
              have f2: "usr s2 = usr s @ input \<and> frm s2 = frm s \<and> dir s2 = dir s \<and> pth s2 = pth s
                      \<and> src s2 = src s \<and> off s2 = off s"
                by (subst n1, simp add: s1_def)+
              show ?thesis
              proof (cases "newLines rc s2 (run_output a)")
                case Panics
                with Cons.prems Returns p None Inr wf rn False r1 q
                have "tool' = tool \<and> s' = s2 \<and> st = Panic"
                  by (simp add: Let_def s1_def)
                with comp f2 show ?thesis by (intro fin) simp_all
              next
                case r2: (Returns q2)
                obtain d2 s3 where q2: "q2 = (d2, s3)" by (cases q2)
                note n2 = newLines_session[OF r2[unfolded q2]]
                have f3: "usr s3 = usr s @ input \<and> dir s3 = dir s \<and> pth s3 = pth s
                      \<and> src s3 = src s \<and> off s3 = off s"
                  using f2 by (subst n2, simp)+
                from Cons.prems Returns p None Inr wf rn False r1 q r2 q2
                have e: "tool' = tool \<and> s' = s3\<lparr>frm := frm s3 + Count_nl d2\<rparr> \<and> st = Ok"
                  by (simp add: Let_def s1_def)
                from newLines_again[OF r1[unfolded q]] r2 q2 have "d2 = d \<and> s3 = s2"
                  by simp
                with e f2 r1 q have "(\<exists>d s2. newLines rc (s\<lparr>usr := usr s @ input\<rparr>) (run_output a) = Returns (d, s2)
                     \<and> s' = s2\<lparr>frm := frm s + Count_nl d\<rparr>)"
                  by (simp add: s1_def)
                with e comp f3 show ?thesis by (intro fin) simp_all
              qed
            qed
          qed
        qed
      qed
    qed
  qed
qed


lemmas str_defs = nl_def byte_def is_cont_def eof_def Index_def Contains_def HasPrefix_def
  TrimSuffix_def Count_nl_def Split_nl_def runes_of_def string_of_runes_def encode_rune_def
  slice_runes_def is_space_def TrimRight_def TrimSpace_def is_ws_def is_digit_def
  message_group_def builderr_def unused_def foundEOF_def println_eof_def runeError_def
  cap32_def

lemma newLines_eof: "newLines cap32 s eof = Returns ([], s\<lparr>rem := []\<rparr>)"
  by (simp add: newLines_def str_defs)

lemma exec_rejected:
  "exec cap32 s0 ''x := 1'' w0 [rejects ''bad''] =
     Some (Fail (Err ''failed to process imports: bad''), s0,
           w0\<lparr>files := [''/tmp/igo1/main.go'' \<mapsto>
                  ''package main\<newline>\<newline>func main() {\<newline>x := 1\<newline>'' @ println_eof @ ''}\<newline>'']\<rparr>, [])"
  by (simp add: exec_def write_go_def s0_def fresh_def w0_def rejects_def str_defs)

lemma exec_accepted:
  "exec cap32 s0 ''x := 1'' w0 [runs eof] =
     Some (Ok, s0\<lparr>usr := ''x := 1\<newline>''\<rparr>,
           w0\<lparr>files := [''/tmp/igo1/main.go'' \<mapsto> ''package main'']\<rparr>, [])"
  by (simp add: exec_def write_go_def WriteFile_def s0_def fresh_def w0_def runs_def
        newLines_eof TrimSuffix_def Count_nl_def nl_def)

text \<open>
  C3. History grows only by a candidate whose round was completed (assembled, processed,
  run without error), and then by exactly that candidate; and whenever \<open>exec\<close> returns an
  error (the incomplete-statement signal \<open>errEOF\<close> or any other), history and the count of
  shown lines are what they were before.
\<close>

theorem failed_candidate_keeps_history:
  assumes "exec rc s input w tool = Some (st, s', w', tool')"
  shows "(\<forall>e. st = Fail e \<longrightarrow> usr s' = usr s \<and> frm s' = frm s)
       \<and> (usr s' \<noteq> usr s \<longrightarrow>
            usr s' = usr s @ input @ [nl] \<and> (\<exists>used a. tool = used @ a # tool' \<and> completed a))"
  using exec_loop_inv[OF assms[unfolded exec_def]] by auto

theorem failed_candidate_keeps_history_witness:
  "(exec cap32 s0 ''x := 1'' w0 [rejects ''bad''] =
      Some (Fail (Err ''failed to process imports: bad''), s0,
            w0\<lparr>files := [''/tmp/igo1/main.go'' \<mapsto>
                  ''package main\<newline>\<newline>func main() {\<newline>x := 1\<newline>'' @ println_eof @ ''}\<newline>'']\<rparr>, [])
    \<and> usr s0 = usr s0 \<and> frm s0 = frm s0)
   \<and> (exec cap32 s0 ''x := 1'' w0 [runs eof] =
         Some (Ok, s0\<lparr>usr := ''x := 1\<newline>''\<rparr>,
               w0\<lparr>files := [''/tmp/igo1/main.go'' \<mapsto> ''package main'']\<rparr>, [])
       \<and> usr (s0\<lparr>usr := ''x := 1\<newline>''\<rparr>) \<noteq> usr s0
       \<and> usr (s0\<lparr>usr := ''x := 1\<newline>''\<rparr>) = usr s0 @ ''x := 1'' @ [nl]
       \<and> (\<exists>used a. [runs eof] = used @ a # [] \<and> completed a))"
proof -
  have u: "usr (s0\<lparr>usr := ''x := 1\<newline>''\<rparr>) \<noteq> usr s0"
    by (simp add: s0_def fresh_def)
  from failed_candidate_keeps_history[OF exec_rejected]
       failed_candidate_keeps_history[OF exec_accepted] u exec_rejected exec_accepted
  show ?thesis by simp
qed

section \<open>Shell lines\<close>









section \<open>The delta of an output of single-byte characters\<close>

lemma decode_ascii: "byte c < 128 \<Longrightarrow> decode_rune (c # cs) = (byte c, 1)"
  by simp

lemma range_str_ascii:
  "byte c < 128 \<Longrightarrow> range_str i (c # s) = (i, byte c) # range_str (Suc i) s"
  by (simp del: decode_rune.simps add: decode_ascii)

lemma runes_ascii: "ascii s \<Longrightarrow> map snd (range_str i s) = map byte s"
  by (induction s arbitrary: i) (simp_all add: range_str_ascii ascii_def del: range_str.simps(2))

lemma runes_of_ascii: "ascii s \<Longrightarrow> runes_of s = map byte s"
  by (simp add: runes_of_def runes_ascii)

lemma encode_ascii: "byte c < 128 \<Longrightarrow> encode_rune (byte c) = [c]"
  by (simp add: encode_rune_def byte_def)

lemma string_of_runes_ascii: "ascii s \<Longrightarrow> string_of_runes (map byte s) = s"
  by (induction s) (simp_all add: string_of_runes_def encode_ascii ascii_def)

lemma ascii_take: "ascii s \<Longrightarrow> ascii (take n s)"
  by (auto simp: ascii_def dest: in_set_takeD)

lemma ascii_drop: "ascii s \<Longrightarrow> ascii (drop n s)"
  by (auto simp: ascii_def dest: in_set_dropD)

lemma byte_nl: "(byte c = byte nl) = (c = nl)"
  by (auto simp: byte_def)

lemma skip_lines_Nil: "skip_lines k [] = []"
  by (cases k) simp_all

lemma skip_lines_other: "c \<noteq> nl \<Longrightarrow> skip_lines (Suc k) (c # s) = skip_lines (Suc k) s"
  by simp

lemma skip_lines_nl: "skip_lines (Suc k) (nl # s) = skip_lines k s"
  by simp

lemma skip_lines_length: "length (skip_lines k s) \<le> length s"
proof (induction s arbitrary: k)
  case Nil
  show ?case by (simp add: skip_lines_Nil)
next
  case (Cons c s)
  show ?case
  proof (cases k)
    case 0
    then show ?thesis by simp
  next
    case (Suc j)
    show ?thesis
    proof (cases "c = nl")
      case True
      with Suc Cons.IH[of j] show ?thesis by (simp del: skip_lines.simps add: skip_lines_nl)
    next
      case False
      with Suc Cons.IH[of "Suc j"] show ?thesis by (simp del: skip_lines.simps add: skip_lines_other)
    qed
  qed
qed

lemma skip_lines_drop: "skip_lines k s = drop (length s - length (skip_lines k s)) s"
proof (induction s arbitrary: k)
  case Nil
  show ?case by (simp add: skip_lines_Nil)
next
  case (Cons c s)
  show ?case
  proof (cases k)
    case 0
    then show ?thesis by simp
  next
    case (Suc j)
    have le: "length (skip_lines i s) \<le> length s" for i by (rule skip_lines_length)
    show ?thesis
    proof (cases "c = nl")
      case True
      with Suc Cons.IH[of j] le[of j] show ?thesis
        by (simp del: skip_lines.simps add: skip_lines_nl Suc_diff_le)
    next
      case False
      with Suc Cons.IH[of "Suc j"] le[of "Suc j"] show ?thesis
        by (simp del: skip_lines.simps add: skip_lines_other Suc_diff_le)
    qed
  qed
qed

lemma find_start_ascii:
  "ascii s \<Longrightarrow> c \<le> f \<Longrightarrow>
   (case find_start f c (range_str i s) of Some j \<Rightarrow> j | None \<Rightarrow> i + length s)
     = i + length s - length (skip_lines (f - c) s)"
proof (induction s arbitrary: i c)
  case Nil
  show ?case by (simp add: skip_lines_Nil)
next
  case (Cons x s)
  from Cons.prems have ax: "byte x < 128" and as: "ascii s" by (simp_all add: ascii_def)
  note z = range_str_ascii[OF ax]
  have le: "length (skip_lines k s) \<le> length s" for k by (rule skip_lines_length)
  show ?case
  proof (cases "f \<le> c")
    case True
    with Cons.prems have "f - c = 0" by simp
    with True show ?thesis unfolding z by simp
  next
    case False
    then obtain k where k: "f - c = Suc k" by (cases "f - c") auto
    then have k': "f - Suc c = k" by simp
    show ?thesis
    proof (cases "x = nl")
      case True
      from False have "Suc c \<le> f" by simp
      from Cons.IH[OF as this, of "Suc i"] have
        "(case find_start f (Suc c) (range_str (Suc i) s) of Some j \<Rightarrow> j | None \<Rightarrow> Suc i + length s)
           = Suc i + length s - length (skip_lines k s)"
        by (simp only: k')
      with k True False show ?thesis
        unfolding z by (simp del: skip_lines.simps add: skip_lines_nl split: option.splits)
    next
      case nx: False
      from Cons.IH[OF as Cons.prems(2), of "Suc i"] have
        "(case find_start f c (range_str (Suc i) s) of Some j \<Rightarrow> j | None \<Rightarrow> Suc i + length s)
           = Suc i + length s - length (skip_lines (Suc k) s)"
        by (simp only: k)
      with k nx False show ?thesis
        unfolding z by (simp del: skip_lines.simps add: skip_lines_other byte_nl split: option.splits)
    qed
  qed
qed

lemma str_index_le: "str_index s p = Some e \<Longrightarrow> e + length p \<le> length s"
proof (induction s arbitrary: e)
  case Nil
  then show ?case by (simp split: if_splits)
next
  case (Cons c s)
  show ?case
  proof (cases "prefix p (c # s)")
    case True
    with Cons.prems have "e = 0" by simp
    with prefix_length_le[OF True] show ?thesis by simp
  next
    case False
    with Cons.prems obtain e' where "str_index s p = Some e'" "e = Suc e'" by auto
    with Cons.IH[of e'] show ?thesis by simp
  qed
qed

lemma delta_end_bounds:
  "length out - length (skip_lines f out) \<le> delta_end f out \<and> delta_end f out \<le> length out"
proof -
  have "e \<le> length out" if "str_index out eof = Some e" for e
    using str_index_le[OF that] by simp
  then show ?thesis
    by (auto simp: delta_end_def Let_def split: option.splits)
qed

lemma newLines_ascii:
  assumes "ascii out"
  shows "newLines rc s out = Returns (delta (frm s) out, s\<lparr>rem := remainder (frm s) out\<rparr>)"
proof -
  define start where "start = length out - length (skip_lines (frm s) out)"
  define e where "e = delta_end (frm s) out"
  have st: "(case find_start (frm s) 0 (range_str 0 out) of Some i \<Rightarrow> i | None \<Rightarrow> length out) = start"
    using find_start_ascii[OF assms, of 0 "frm s" 0] by (simp add: start_def split: option.splits)
  have b: "start \<le> e" "e \<le> length out"
    using delta_end_bounds[of out "frm s"] by (simp_all add: start_def e_def)
  have en: "(if Index out eof < int start then int (length out) else Index out eof) = int e"
    by (auto simp: Index_def e_def delta_end_def start_def Let_def split: option.splits)
  have sl: "slice_runes (map byte out) (rc (length out)) start e
              = Returns (map byte (take (e - start) (drop start out)))"
    using b by (simp add: slice_runes_def take_map drop_map)
  have dr: "drop start out = skip_lines (frm s) out"
    unfolding start_def by (rule skip_lines_drop[symmetric])
  have dl: "delta (frm s) out = take (e - start) (skip_lines (frm s) out)"
    by (simp add: delta_def Let_def e_def start_def)
  have "ascii (take (e - start) (drop start out))"
    by (intro ascii_take ascii_drop assms)
  then have "string_of_runes (map byte (take (e - start) (drop start out)))
               = take (e - start) (drop start out)"
    by (rule string_of_runes_ascii)
  then have d: "string_of_runes (map byte (take (e - start) (drop start out))) = delta (frm s) out"
    by (simp only: dr dl)
  have r: "(if int e + int (length eof) < int (length out)
            then s\<lparr>rem := TrimSuffix (string_of_runes (drop (nat (int e + int (length eof))) (map byte out))) [nl] @ [nl]\<rparr>
            else s\<lparr>rem := []\<rparr>) = s\<lparr>rem := remainder (frm s) out\<rparr>"
  proof -
    have "nat (int e + int (length eof)) = e + length eof" by simp
    then show ?thesis
      by (simp add: remainder_def Let_def e_def drop_map string_of_runes_ascii ascii_drop assms
               del: of_nat_add)
  qed
  show ?thesis
    unfolding newLines_def Let_def st en runes_of_ascii[OF assms] length_map
    using r sl d by simp
qed


lemma ascii_eval: "ascii (c # s) = (byte c < 128 \<and> ascii s)" "ascii []"
  by (simp_all add: ascii_def)

lemmas delta_defs = delta_def delta_end_def remainder_def delta_spec_def Let_def eof_def nl_def
  TrimSuffix_def suffix_to_prefix ascii_eval byte_def

text \<open>
  C1, as the code has it. For an output of single-byte characters \<open>newLines\<close> returns the
  delta that begins after the first \<open>frm\<close> newlines and ends at the first sentinel of the
  whole output when that sentinel is not before the start, at the end of the output
  otherwise. And whenever \<open>exec\<close> succeeds, the count of shown lines has grown by the
  number of newlines in the delta that \<open>newLines\<close> returned for the output of the last
  round.
\<close>

theorem delta_extraction:
  "(ascii out \<longrightarrow>
      newLines rc s out = Returns (delta (frm s) out, s\<lparr>rem := remainder (frm s) out\<rparr>))
   \<and> (exec rc s input w tool = Some (Ok, s', w', tool') \<longrightarrow>
        (\<exists>used a d s2. tool = used @ a # tool'
           \<and> newLines rc (s\<lparr>usr := usr s @ input @ [nl]\<rparr>) (run_output a) = Returns (d, s2)
           \<and> frm s' = frm s + Count_nl d))"
proof (intro conjI impI)
  assume "ascii out"
  then show "newLines rc s out = Returns (delta (frm s) out, s\<lparr>rem := remainder (frm s) out\<rparr>)"
    by (rule newLines_ascii)
next
  assume "exec rc s input w tool = Some (Ok, s', w', tool')"
  from exec_loop_inv[OF this[unfolded exec_def]] obtain used a d s2 where
    "tool = used @ a # tool'"
    "newLines rc (s\<lparr>usr := usr s @ input @ [nl]\<rparr>) (run_output a) = Returns (d, s2)"
    "s' = s2\<lparr>frm := frm s + Count_nl d\<rparr>"
    by auto
  then show "\<exists>used a d s2. tool = used @ a # tool'
           \<and> newLines rc (s\<lparr>usr := usr s @ input @ [nl]\<rparr>) (run_output a) = Returns (d, s2)
           \<and> frm s' = frm s + Count_nl d"
    by auto
qed

lemma sample_out_facts:
  "ascii sample_out" "delta 1 sample_out = ''2\<newline>''" "remainder 1 sample_out = ''bye\<newline>''"
  by (simp_all add: sample_out_def delta_defs)

lemma exec_printed:
  "exec cap32 (s0\<lparr>frm := 1\<rparr>) ''println(2)'' w0 [runs sample_out] =
     Some (Ok, s0\<lparr>frm := 2, usr := ''println(2)\<newline>'', rem := ''bye\<newline>''\<rparr>,
           w0\<lparr>files := [''/tmp/igo1/main.go'' \<mapsto> ''package main''], stdout := ''2\<newline>''\<rparr>, [])"
  by (simp add: exec_def write_go_def WriteFile_def s0_def fresh_def w0_def runs_def
        newLines_ascii Count_nl_def sample_out_def delta_defs)

theorem delta_extraction_witness:
  "ascii sample_out
   \<and> newLines cap32 (s0\<lparr>frm := 1\<rparr>) sample_out
       = Returns (''2\<newline>'', s0\<lparr>frm := 1, rem := ''bye\<newline>''\<rparr>)
   \<and> exec cap32 (s0\<lparr>frm := 1\<rparr>) ''println(2)'' w0 [runs sample_out] =
       Some (Ok, s0\<lparr>frm := 2, usr := ''println(2)\<newline>'', rem := ''bye\<newline>''\<rparr>,
             w0\<lparr>files := [''/tmp/igo1/main.go'' \<mapsto> ''package main''], stdout := ''2\<newline>''\<rparr>, [])
   \<and> (\<exists>used a d s2. [runs sample_out] = used @ a # []
         \<and> newLines cap32
              (s0\<lparr>frm := 1, usr := usr (s0\<lparr>frm := 1\<rparr>) @ ''println(2)'' @ [nl]\<rparr>)
              (run_output a) = Returns (d, s2)
         \<and> frm (s0\<lparr>frm := 2, usr := ''println(2)\<newline>'', rem := ''bye\<newline>''\<rparr>)
             = frm (s0\<lparr>frm := 1\<rparr>) + Count_nl d)"
proof -
  note t = delta_extraction[of sample_out cap32 "s0\<lparr>frm := 1\<rparr>"
      "''println(2)''" w0 "[runs sample_out]"
      "s0\<lparr>frm := 2, usr := ''println(2)\<newline>'', rem := ''bye\<newline>''\<rparr>"
      "w0\<lparr>files := [''/tmp/igo1/main.go'' \<mapsto> ''package main''], stdout := ''2\<newline>''\<rparr>" "[]"]
  have f: "frm (s0\<lparr>frm := 1\<rparr>) = 1" by simp
  from t sample_out_facts(1)
  have "newLines cap32 (s0\<lparr>frm := 1\<rparr>) sample_out
          = Returns (delta (frm (s0\<lparr>frm := 1\<rparr>)) sample_out,
                     s0\<lparr>frm := 1, rem := remainder (frm (s0\<lparr>frm := 1\<rparr>)) sample_out\<rparr>)"
    by blast
  then have n: "newLines cap32 (s0\<lparr>frm := 1\<rparr>) sample_out
       = Returns (''2\<newline>'', s0\<lparr>frm := 1, rem := ''bye\<newline>''\<rparr>)"
    by (simp only: f sample_out_facts)
  from t exec_printed have e: "\<exists>used a d s2. [runs sample_out] = used @ a # []
         \<and> newLines cap32
              (s0\<lparr>frm := 1, usr := usr (s0\<lparr>frm := 1\<rparr>) @ ''println(2)'' @ [nl]\<rparr>)
              (run_output a) = Returns (d, s2)
         \<and> frm (s0\<lparr>frm := 2, usr := ''println(2)\<newline>'', rem := ''bye\<newline>''\<rparr>)
             = frm (s0\<lparr>frm := 1\<rparr>) + Count_nl d"
    by blast
  from sample_out_facts(1) n exec_printed e show ?thesis by blast
qed

text \<open>
  The claim as worded (the delta ends at the first sentinel at or after the start) fails
  when a sentinel stands before the start and another one after it: the code then runs
  to the end of the output.
\<close>

theorem delta_end_counterexample:
  "newLines cap32 (s0\<lparr>frm := 1\<rparr>) (eof @ ''a\<newline>'' @ eof)
     = Returns (''a\<newline>'' @ eof, s0\<lparr>frm := 1, rem := []\<rparr>)
   \<and> delta_spec 1 (eof @ ''a\<newline>'' @ eof) = ''a\<newline>''"
proof -
  have a: "ascii (eof @ ''a\<newline>'' @ eof)"
    by (simp add: ascii_eval eof_def byte_def)
  show ?thesis
    by (simp add: newLines_ascii delta_defs)
qed


text \<open>
  C10. \<open>newLines\<close> takes byte offsets as indices into the rune slice. With characters of
  several bytes the offsets exceed the number of runes: for the output of
  \<open>println\<close> of eleven euro signs (21 runes, the sentinel at byte 34) the slice
  expression is out of range even for the capacity 32 and the call panics.
\<close>

theorem newLines_panics_on_multibyte:
  "newLines cap32 s0 (euros @ [nl] @ eof) = Panics"
  by (simp add: newLines_def euros_def euro_def Let_def s0_def fresh_def str_defs)


section \<open>The auto-fix loop\<close>

lemma fix_line_acc:
  "fix_line l (b, fx) = (b \<or> fst (fix_line l (False, [])), fx @ snd (fix_line l (False, [])))"
  by (simp add: fix_line_def split: option.splits prod.splits)

lemma fold_fix_line:
  "fold fix_line ls (b, fx) =
     (b \<or> fst (fold fix_line ls (False, [])), fx @ snd (fold fix_line ls (False, [])))"
proof (induction ls arbitrary: b fx)
  case Nil
  show ?case by simp
next
  case (Cons l ls)
  obtain b1 f1 where l: "fix_line l (False, []) = (b1, f1)"
    by (cases "fix_line l (False, [])")
  have "fold fix_line (l # ls) (b, fx) = fold fix_line ls (b \<or> b1, fx @ f1)"
    using fix_line_acc[of l b fx] l by simp
  also have "\<dots> = ((b \<or> b1) \<or> fst (fold fix_line ls (False, [])),
                    (fx @ f1) @ snd (fold fix_line ls (False, [])))"
    by (rule Cons.IH)
  finally have lhs: "fold fix_line (l # ls) (b, fx) =
      ((b \<or> b1) \<or> fst (fold fix_line ls (False, [])),
       (fx @ f1) @ snd (fold fix_line ls (False, [])))" .
  have "fold fix_line (l # ls) (False, []) = fold fix_line ls (b1, f1)"
    using l by simp
  also have "\<dots> = (b1 \<or> fst (fold fix_line ls (False, [])),
                    f1 @ snd (fold fix_line ls (False, [])))"
    by (rule Cons.IH)
  finally have rhs: "fold fix_line (l # ls) (False, []) =
      (b1 \<or> fst (fold fix_line ls (False, [])), f1 @ snd (fold fix_line ls (False, [])))" .
  show ?case unfolding lhs rhs by simp
qed

lemma exec_loop_build_failed:
  assumes "build_failed a" and "off s \<le> length (src s)"
  shows "exec_loop rc s input fx w (a # tool) =
           (if fst (fold fix_line (Split_nl (run_output a)) (False, []))
            then exec_loop rc s input (fx @ fixes_of a) (after_rounds s w [a]) tool
            else Some (Fail (Err (TrimSuffix (run_output a) [nl])), s, after_rounds s w [a], tool))"
proof -
  from assms(1) obtain buf where b: "imports_out a = Inr buf"
    by (cases "imports_out a") (auto simp: build_failed_def)
  from assms(1) have sw: "silent (wfault a) 6" and sr: "silent (rewrite a) 1" and re: "run_err a"
    and ne: "\<not> HasPrefix (last (Split_nl (TrimSuffix (run_output a) [nl]))) ''exit status ''"
    by (auto simp: build_failed_def)
  show ?thesis
    using fold_fix_line[of "Split_nl (run_output a)" False fx]
    by (simp add: write_go_silent[OF assms(2) sw] b WriteFile_silent[OF sr] re ne Let_def
          fixes_of_def after_rounds_def)
qed

lemma after_rounds_Cons:
  "after_rounds s (after_rounds s w [a]) as = after_rounds s w (a # as)"
  by (simp add: after_rounds_def)

lemma exec_loop_retries:
  assumes "list_all retrying as" and "off s \<le> length (src s)"
  shows "exec_loop rc s input fx w (as @ tool) =
           exec_loop rc s input (fx @ concat (map fixes_of as)) (after_rounds s w as) tool"
  using assms(1)
proof (induction as arbitrary: fx w)
  case Nil
  show ?case by (simp add: after_rounds_def)
next
  case (Cons a as)
  from Cons.prems have ra: "retrying a" and rest: "list_all retrying as"
    by simp_all
  from ra have r: "build_failed a" "fst (fold fix_line (Split_nl (run_output a)) (False, []))"
    by (simp_all add: retrying_def)
  have "exec_loop rc s input fx w ((a # as) @ tool) =
          exec_loop rc s input (fx @ fixes_of a) (after_rounds s w [a]) (as @ tool)"
    using exec_loop_build_failed[OF r(1) assms(2), of rc input fx w "as @ tool"] r(2)
    by simp
  also have "\<dots> = exec_loop rc s input ((fx @ fixes_of a) @ concat (map fixes_of as))
                     (after_rounds s (after_rounds s w [a]) as) tool"
    by (rule Cons.IH[OF rest])
  finally show ?case by (simp add: after_rounds_Cons)
qed

lemma retrying_unused_x: "retrying (fails unused_x)"
  by (simp add: retrying_def build_failed_def fails_def silent_def unused_x_def fix_line_def
        str_defs)

lemma fixes_of_unused_x: "fixes_of (fails unused_x) = ''_ = x\<newline>''"
  by (simp add: fixes_of_def fails_def unused_x_def fix_line_def str_defs)

lemma off_s0: "off s0 \<le> length (src s0)"
  by (simp add: s0_def fresh_def)

lemma exec_loop_last_round:
  "exec_loop cap32 s0 ''x := 1\<newline>'' fx w [runs eof] =
     Some (Ok, s0\<lparr>usr := ''x := 1\<newline>''\<rparr>,
           w\<lparr>files := (files w)(''/tmp/igo1/main.go'' \<mapsto> ''package main'')\<rparr>, [])"
  by (simp add: write_go_def WriteFile_def s0_def fresh_def runs_def newLines_eof
        TrimSuffix_def Count_nl_def nl_def)

text \<open>
  C7, as the code has it. The loop has no cap: after any number of rounds that each
  report an unused binding it has not returned, it reports no error of its own, and it
  goes into the next round with the fixes of all rounds so far.
\<close>

theorem retry_loop_has_no_cap:
  assumes "list_all retrying as" and "off s \<le> length (src s)"
  shows "exec rc s input w as = None
       \<and> exec rc s input w (as @ tool) =
           exec_loop rc s (input @ [nl]) (concat (map fixes_of as)) (after_rounds s w as) tool"
  using exec_loop_retries[OF assms, of rc "input @ [nl]" "[]" w tool]
        exec_loop_retries[OF assms, of rc "input @ [nl]" "[]" w "[]"]
  by (simp add: exec_def)

theorem retry_loop_has_no_cap_witness:
  "list_all retrying [fails unused_x, fails unused_x] \<and> off s0 \<le> length (src s0)
   \<and> exec cap32 s0 ''x := 1'' w0 [fails unused_x, fails unused_x] = None
   \<and> exec cap32 s0 ''x := 1'' w0 ([fails unused_x, fails unused_x] @ [runs eof]) =
       exec_loop cap32 s0 (''x := 1'' @ [nl]) (concat (map fixes_of [fails unused_x, fails unused_x]))
         (after_rounds s0 w0 [fails unused_x, fails unused_x]) [runs eof]"
proof -
  have h: "list_all retrying [fails unused_x, fails unused_x]"
    by (simp add: retrying_unused_x)
  from retry_loop_has_no_cap[OF h off_s0] h off_s0 show ?thesis by blast
qed

text \<open>
  The claim of a cap (at most some ten retries, then an error) fails: eleven rounds
  reporting an unused binding, then a clean one, and \<open>exec\<close> has retried eleven times and
  returns success.
\<close>

theorem retry_cap_counterexample:
  "exec cap32 s0 ''x := 1'' w0 (replicate 11 (fails unused_x) @ [runs eof]) =
     Some (Ok, s0\<lparr>usr := ''x := 1\<newline>''\<rparr>,
           w0\<lparr>files := [''/tmp/igo1/main.go'' \<mapsto> ''package main'']\<rparr>, [])"
proof -
  have h: "list_all retrying (replicate 11 (fails unused_x))"
    by (simp add: list_all_iff retrying_unused_x)
  have "exec cap32 s0 ''x := 1'' w0 (replicate 11 (fails unused_x) @ [runs eof]) =
          exec_loop cap32 s0 ''x := 1\<newline>''
            (concat (map fixes_of (replicate 11 (fails unused_x))))
            (after_rounds s0 w0 (replicate 11 (fails unused_x))) [runs eof]"
    using exec_loop_retries[OF h off_s0, of cap32 "''x := 1\<newline>''" "[]" w0 "[runs eof]"]
    by (simp add: exec_def nl_def)
  also have "\<dots> = Some (Ok, s0\<lparr>usr := ''x := 1\<newline>''\<rparr>,
           (after_rounds s0 w0 (replicate 11 (fails unused_x)))
             \<lparr>files := (files (after_rounds s0 w0 (replicate 11 (fails unused_x))))
                        (''/tmp/igo1/main.go'' \<mapsto> ''package main'')\<rparr>, [])"
    by (rule exec_loop_last_round)
  also have "\<dots> = Some (Ok, s0\<lparr>usr := ''x := 1\<newline>''\<rparr>,
           w0\<lparr>files := [''/tmp/igo1/main.go'' \<mapsto> ''package main'']\<rparr>, [])"
    by (simp add: after_rounds_def w0_def s0_def fresh_def)
  finally show ?thesis .
qed

lemma write_go_fault:
  assumes "off s \<le> length (src s)" and "\<not> silent flt 6"
  shows "\<exists>fs'. write_go s input flt fs = Returns (Some (fault_text flt), fs')"
proof (cases flt)
  case NoFault
  with assms show ?thesis by (simp add: silent_def)
next
  case (OpenFault e)
  then show ?thesis by (simp add: write_go_def fault_text_def)
next
  case (WriteFault k n e)
  with assms(2) have k: "k < 6" by (simp add: silent_def)
  obtain c r where cr: "w_chunks (WriteFault k n e) 0
      [take (off s) (src s), [nl], usr s, input, println_eof, drop (off s) (src s)] = (c, r)"
    by (cases "w_chunks (WriteFault k n e) 0
      [take (off s) (src s), [nl], usr s, input, println_eof, drop (off s) (src s)]")
  have "snd (w_chunks (WriteFault k n e) 0
      [take (off s) (src s), [nl], usr s, input, println_eof, drop (off s) (src s)]) = Some e"
    by (rule w_chunks_hit) (use k in simp_all)
  with cr have "r = Some e" by simp
  with cr WriteFault assms(1) show ?thesis
    by (simp add: write_go_def fault_text_def)
qed

lemma WriteFile_fault:
  assumes "\<not> silent flt 1"
  shows "\<exists>fs'. WriteFile p b flt fs = (Some (fault_text flt), fs')"
proof (cases flt)
  case NoFault
  with assms show ?thesis by (simp add: silent_def)
next
  case (OpenFault e)
  then show ?thesis by (simp add: WriteFile_def fault_text_def)
next
  case (WriteFault k n e)
  with assms have k: "k = 0" by (simp add: silent_def)
  with WriteFault show ?thesis
    by (simp add: WriteFile_def fault_text_def)
qed

lemma exec_loop_reported:
  assumes r: "reported rc s a = Some e" and o: "off s \<le> length (src s)"
  shows "\<exists>s1 w1. exec_loop rc s input fx w (a # tool) = Some (Fail e, s1, w1, tool)
                 \<and> usr s1 = usr s \<and> frm s1 = frm s"
proof (cases "silent (wfault a) 6")
  case False
  from write_go_fault[OF o False] obtain fs' where
    "write_go s (input @ fx) (wfault a) (files w) = Returns (Some (fault_text (wfault a)), fs')"
    by blast
  with r False show ?thesis by (simp add: reported_def)
next
  case sw: True
  note wr = write_go_silent[OF o sw]
  show ?thesis
  proof (cases "imports_out a")
    case (Inl m)
    with r sw have e: "e = (if Contains m foundEOF then errEOF
                            else Err (''failed to process imports: '' @ m))"
      by (simp add: reported_def)
    show ?thesis
      by (simp add: wr Inl e)
  next
    case (Inr buf)
    show ?thesis
    proof (cases "silent (rewrite a) 1")
      case False
      from WriteFile_fault[OF False] obtain fs' where
        "WriteFile (pth s) buf (rewrite a)
           ((files w)(pth s \<mapsto> take (off s) (src s) @ [nl] @ usr s @ (input @ fx) @ println_eof
                                  @ drop (off s) (src s)))
         = (Some (fault_text (rewrite a)), fs')"
        by blast
      with r sw wr Inr False show ?thesis by (simp add: reported_def)
    next
      case sr: True
      note wf = WriteFile_silent[OF sr]
      from r sw Inr sr have re: "run_err a"
        by (auto simp: reported_def split: if_splits)
      show ?thesis
      proof (cases "HasPrefix (last (Split_nl (TrimSuffix (run_output a) [nl]))) ''exit status ''")
        case ex: True
        with r sw Inr sr re obtain d s1 where
          n: "newLines rc s (run_output a) = Returns (d, s1)" and e: "e = Err (TrimSuffix d [nl])"
          by (auto simp: reported_def split: go.splits)
        have "usr s1 = usr s \<and> frm s1 = frm s"
          by (subst newLines_session[OF n], simp)+
        with wr Inr wf re ex n e show ?thesis by (simp add: Let_def)
      next
        case ex: False
        with r sw Inr sr re have nf: "\<not> fst (fold fix_line (Split_nl (run_output a)) (False, []))"
          and e: "e = Err (TrimSuffix (run_output a) [nl])"
          by (auto simp: reported_def split: if_splits)
        have b: "build_failed a"
          using sw Inr sr re ex by (simp add: build_failed_def)
        from exec_loop_build_failed[OF b o, of rc input fx w tool] nf e show ?thesis
          by simp
      qed
    qed
  qed
qed

lemma exec_loop_imports_failed:
  assumes "silent (wfault a) 6" and "isl (imports_out a)" and o: "off s \<le> length (src s)"
  shows "\<exists>e. exec_loop rc s input fx w (a # tool) =
           Some (Fail e, s,
                 w\<lparr>files := (files w)(pth s \<mapsto> take (off s) (src s) @ [nl] @ usr s @ input @ fx
                                               @ println_eof @ drop (off s) (src s))\<rparr>, tool)"
proof -
  from assms(2) obtain m where m: "imports_out a = Inl m" by (cases "imports_out a") auto
  show ?thesis
    by (simp add: write_go_silent[OF o assms(1)] m)
qed


text \<open>
  C5, as the code has it. When \<open>exec\<close> succeeds, with or without fixes, history grows by
  the candidate and its newline alone: the fixes are not kept. When, after rounds that
  were retried, a run fails for another reason (a failure of \<open>write\<close> or \<open>os.WriteFile\<close>,
  an error of \<open>imports.Process\<close>, a runtime error, a build failure without unused
  bindings), \<open>exec\<close> returns the error of that run and history and the count of shown
  lines are as they were. The fixes of the retried rounds are in the program that the
  next round assembles: the file shows them when \<open>imports.Process\<close> then fails.
\<close>

theorem fixes_are_never_kept:
  "(exec rc s input w tool = Some (Ok, s', w', tool') \<longrightarrow> usr s' = usr s @ input @ [nl])
   \<and> (list_all retrying as \<and> off s \<le> length (src s) \<and> reported rc s a = Some e \<longrightarrow>
        (\<exists>s1 w1. exec rc s input w (as @ a # tool) = Some (Fail e, s1, w1, tool)
                 \<and> usr s1 = usr s \<and> frm s1 = frm s))
   \<and> (list_all retrying as \<and> off s \<le> length (src s) \<and> silent (wfault a) 6
        \<and> isl (imports_out a) \<longrightarrow>
        (\<exists>e' w1. exec rc s input w (as @ a # tool) = Some (Fail e', s, w1, tool)
                 \<and> files w1 (pth s) =
                     Some (take (off s) (src s) @ [nl] @ usr s @ input @ [nl]
                           @ concat (map fixes_of as) @ println_eof @ drop (off s) (src s))))"
proof (intro conjI impI)
  assume "exec rc s input w tool = Some (Ok, s', w', tool')"
  from exec_loop_inv[OF this[unfolded exec_def]] show "usr s' = usr s @ input @ [nl]"
    by simp
next
  assume a: "list_all retrying as \<and> off s \<le> length (src s) \<and> reported rc s a = Some e"
  then have r: "list_all retrying as" and o: "off s \<le> length (src s)"
    and p: "reported rc s a = Some e"
    by simp_all
  from exec_loop_reported[OF p o, of "input @ [nl]" "concat (map fixes_of as)"
         "after_rounds s w as" tool]
  show "\<exists>s1 w1. exec rc s input w (as @ a # tool) = Some (Fail e, s1, w1, tool)
                 \<and> usr s1 = usr s \<and> frm s1 = frm s"
    using exec_loop_retries[OF r o, of rc "input @ [nl]" "[]" w "a # tool"]
    by (simp add: exec_def)
next
  assume a: "list_all retrying as \<and> off s \<le> length (src s) \<and> silent (wfault a) 6
        \<and> isl (imports_out a)"
  then have r: "list_all retrying as" and o: "off s \<le> length (src s)"
    and sw: "silent (wfault a) 6" and il: "isl (imports_out a)"
    by simp_all
  from exec_loop_imports_failed[OF sw il o, of rc "input @ [nl]" "concat (map fixes_of as)"
         "after_rounds s w as" tool]
  obtain e' where "exec_loop rc s (input @ [nl]) (concat (map fixes_of as)) (after_rounds s w as)
                     (a # tool) =
       Some (Fail e', s,
             (after_rounds s w as)\<lparr>files := (files (after_rounds s w as))
                (pth s \<mapsto> take (off s) (src s) @ [nl] @ usr s @ (input @ [nl])
                            @ concat (map fixes_of as) @ println_eof @ drop (off s) (src s))\<rparr>,
             tool)"
    by blast
  then have "exec rc s input w (as @ a # tool) =
       Some (Fail e', s,
             (after_rounds s w as)\<lparr>files := (files (after_rounds s w as))
                (pth s \<mapsto> take (off s) (src s) @ [nl] @ usr s @ (input @ [nl])
                            @ concat (map fixes_of as) @ println_eof @ drop (off s) (src s))\<rparr>,
             tool)"
    using exec_loop_retries[OF r o, of rc "input @ [nl]" "[]" w "a # tool"]
    by (simp add: exec_def)
  then show "\<exists>e' w1. exec rc s input w (as @ a # tool) = Some (Fail e', s, w1, tool)
                 \<and> files w1 (pth s) =
                     Some (take (off s) (src s) @ [nl] @ usr s @ input @ [nl]
                           @ concat (map fixes_of as) @ println_eof @ drop (off s) (src s))"
    by simp
qed

lemma exec_fixed_once:
  "exec cap32 s0 ''x := 1'' w0 [fails unused_x, runs eof] =
     Some (Ok, s0\<lparr>usr := ''x := 1\<newline>''\<rparr>,
           w0\<lparr>files := [''/tmp/igo1/main.go'' \<mapsto> ''package main'']\<rparr>, [])"
proof -
  have h: "list_all retrying [fails unused_x]"
    by (simp add: retrying_unused_x)
  have "exec cap32 s0 ''x := 1'' w0 [fails unused_x, runs eof] =
          exec_loop cap32 s0 ''x := 1\<newline>''
            (concat (map fixes_of [fails unused_x])) (after_rounds s0 w0 [fails unused_x])
            [runs eof]"
    using exec_loop_retries[OF h off_s0, of cap32 "''x := 1\<newline>''" "[]" w0 "[runs eof]"]
    by (simp add: exec_def nl_def)
  also have "\<dots> = Some (Ok, s0\<lparr>usr := ''x := 1\<newline>''\<rparr>,
           (after_rounds s0 w0 [fails unused_x])
             \<lparr>files := (files (after_rounds s0 w0 [fails unused_x]))
                        (''/tmp/igo1/main.go'' \<mapsto> ''package main'')\<rparr>, [])"
    by (rule exec_loop_last_round)
  also have "\<dots> = Some (Ok, s0\<lparr>usr := ''x := 1\<newline>''\<rparr>,
           w0\<lparr>files := [''/tmp/igo1/main.go'' \<mapsto> ''package main'']\<rparr>, [])"
    by (simp add: after_rounds_def w0_def s0_def fresh_def)
  finally show ?thesis .
qed

lemma reported_panic_out:
  "reported cap32 s0 (fails panic_out) = Some (Err ''panic: 2\<newline>exit status 2'')"
  by (simp add: reported_def fails_def silent_def panic_out_def newLines_ascii HasPrefix_def
        Split_nl_def s0_def fresh_def delta_defs)

theorem fixes_are_never_kept_witness:
  "(exec cap32 s0 ''x := 1'' w0 [fails unused_x, runs eof] =
      Some (Ok, s0\<lparr>usr := ''x := 1\<newline>''\<rparr>,
            w0\<lparr>files := [''/tmp/igo1/main.go'' \<mapsto> ''package main'']\<rparr>, [])
    \<and> usr (s0\<lparr>usr := ''x := 1\<newline>''\<rparr>) = usr s0 @ ''x := 1'' @ [nl])
   \<and> (list_all retrying [fails unused_x] \<and> off s0 \<le> length (src s0)
      \<and> reported cap32 s0 (fails panic_out) = Some (Err ''panic: 2\<newline>exit status 2'')
      \<and> (\<exists>s1 w1. exec cap32 s0 ''x := 1; panic(2)'' w0 ([fails unused_x] @ fails panic_out # []) =
             Some (Fail (Err ''panic: 2\<newline>exit status 2''), s1, w1, [])
           \<and> usr s1 = usr s0 \<and> frm s1 = frm s0))
   \<and> (silent (wfault (rejects ''bad'')) 6 \<and> isl (imports_out (rejects ''bad''))
      \<and> (\<exists>e' w1. exec cap32 s0 ''x := 1; y('' w0 ([fails unused_x] @ rejects ''bad'' # []) =
             Some (Fail e', s0, w1, [])
           \<and> files w1 (pth s0) =
               Some (take (off s0) (src s0) @ [nl] @ usr s0 @ ''x := 1; y('' @ [nl]
                     @ concat (map fixes_of [fails unused_x]) @ println_eof
                     @ drop (off s0) (src s0))))"
proof -
  have h: "list_all retrying [fails unused_x]" "off s0 \<le> length (src s0)"
    by (simp_all add: retrying_unused_x off_s0)
  have i: "silent (wfault (rejects ''bad'')) 6" "isl (imports_out (rejects ''bad''))"
    by (simp_all add: rejects_def silent_def)
  from fixes_are_never_kept[of cap32 s0 "''x := 1''" w0 "[fails unused_x, runs eof]"
         "s0\<lparr>usr := ''x := 1\<newline>''\<rparr>"
         "w0\<lparr>files := [''/tmp/igo1/main.go'' \<mapsto> ''package main'']\<rparr>" "[]"]
       exec_fixed_once
  have one: "usr (s0\<lparr>usr := ''x := 1\<newline>''\<rparr>) = usr s0 @ ''x := 1'' @ [nl]"
    by blast
  from fixes_are_never_kept[of cap32 s0 "''x := 1; panic(2)''" w0 "[]" s0 w0 "[]"
         "[fails unused_x]" "fails panic_out" "Err ''panic: 2\<newline>exit status 2''"] h
       reported_panic_out
  have two: "\<exists>s1 w1. exec cap32 s0 ''x := 1; panic(2)'' w0 ([fails unused_x] @ fails panic_out # []) =
             Some (Fail (Err ''panic: 2\<newline>exit status 2''), s1, w1, [])
           \<and> usr s1 = usr s0 \<and> frm s1 = frm s0"
    by blast
  from fixes_are_never_kept[of cap32 s0 "''x := 1; y(''" w0 "[]" s0 w0 "[]"
         "[fails unused_x]" "rejects ''bad''"] h i
  have three: "\<exists>e' w1. exec cap32 s0 ''x := 1; y('' w0 ([fails unused_x] @ rejects ''bad'' # []) =
             Some (Fail e', s0, w1, [])
           \<and> files w1 (pth s0) =
               Some (take (off s0) (src s0) @ [nl] @ usr s0 @ ''x := 1; y('' @ [nl]
                     @ concat (map fixes_of [fails unused_x]) @ println_eof
                     @ drop (off s0) (src s0))"
    by blast
  from one two three h i exec_fixed_once reported_panic_out show ?thesis by blast
qed

text \<open>
  The claim that candidate and fixes are folded into one history entry fails: the
  statement \<open>x := 1\<close> succeeds after one round that synthesized the fix \<open>_ = x\<close>, and
  history holds the candidate alone.
\<close>

theorem fixes_folded_counterexample:
  "exec cap32 s0 ''x := 1'' w0 [fails unused_x, runs eof] =
     Some (Ok, s0\<lparr>usr := ''x := 1\<newline>''\<rparr>,
           w0\<lparr>files := [''/tmp/igo1/main.go'' \<mapsto> ''package main'']\<rparr>, [])
   \<and> fixes_of (fails unused_x) = ''_ = x\<newline>''
   \<and> usr (s0\<lparr>usr := ''x := 1\<newline>''\<rparr>) \<noteq> usr s0 @ ''x := 1\<newline>'' @ ''_ = x\<newline>''"
  using exec_fixed_once fixes_of_unused_x by (simp add: s0_def fresh_def)

section \<open>How the session ends\<close>

























section \<open>Errors of the running program, and statements over several lines\<close>

text \<open>
  C4. A runtime error of the executed program overwrites the trailing remainder. The
  statement \<open>defer println(1)\<close> is accepted; its output after the sentinel, \<open>1\<close>, is the
  remainder. Then \<open>panic(2)\<close> fails at run time: \<open>exec\<close> returns the error, history and
  the count of shown lines are unchanged, but the remainder is now empty, so that quitting
  prints nothing. (After a compile error or a shell line the remainder is kept.)
\<close>

theorem runtime_error_resets_remainder:
  "exec cap32 s0 ''defer println(1)'' w0 [runs (eof @ ''1\<newline>'')] =
     Some (Ok, s0\<lparr>usr := ''defer println(1)\<newline>'', rem := ''1\<newline>''\<rparr>,
           w0\<lparr>files := [''/tmp/igo1/main.go'' \<mapsto> ''package main'']\<rparr>, [])
   \<and> exec cap32 (s0\<lparr>usr := ''defer println(1)\<newline>'', rem := ''1\<newline>''\<rparr>) ''panic(2)''
         (w0\<lparr>files := [''/tmp/igo1/main.go'' \<mapsto> ''package main'']\<rparr>)
         [fails ''1\<newline>panic: 2\<newline>exit status 2\<newline>''] =
     Some (Fail (Err ''1\<newline>panic: 2\<newline>exit status 2''),
           s0\<lparr>usr := ''defer println(1)\<newline>'', rem := []\<rparr>,
           w0\<lparr>files := [''/tmp/igo1/main.go'' \<mapsto> ''package main'']\<rparr>, [])"
  by (simp add: exec_def write_go_def WriteFile_def s0_def fresh_def w0_def runs_def fails_def
        newLines_ascii Count_nl_def HasPrefix_def Split_nl_def delta_defs)

text \<open>
  C6. The lines of a statement are joined without the newline between them. After
  \<open>if true {\<close> the pipeline signals the unexpected end of input, nothing is printed and
  the next line is read for the same statement; but \<open>a()\<close> is appended directly, and
  with the third line the program assembled is \<open>if true {a()b()\<close>, which the toolchain
  rejects.
\<close>

theorem continuation_drops_newline:
  "process_line ev0 [] s0 w0 [rejects eof_msg] ''if true {\<newline>'' =
     Some (Read ''if true {'', s0,
           w0\<lparr>files := [''/tmp/igo1/main.go'' \<mapsto>
              ''package main\<newline>\<newline>func main() {\<newline>if true {\<newline>'' @ println_eof @ ''}\<newline>'']\<rparr>, [])
   \<and> process_line ev0 ''if true {'' s0 w0 [rejects eof_msg] ''a()\<newline>'' =
     Some (Read ''if true {a()'', s0,
           w0\<lparr>files := [''/tmp/igo1/main.go'' \<mapsto>
              ''package main\<newline>\<newline>func main() {\<newline>if true {a()\<newline>'' @ println_eof @ ''}\<newline>'']\<rparr>, [])
   \<and> process_line ev0 ''if true {a()'' s0 w0 [rejects ''main.go:4:14: expected ;, found b'']
         ''b()\<newline>'' =
     Some (Prompt, s0,
           w0\<lparr>files := [''/tmp/igo1/main.go'' \<mapsto>
              ''package main\<newline>\<newline>func main() {\<newline>if true {a()b()\<newline>'' @ println_eof @ ''}\<newline>''],
              stderr := ''failed to process imports: main.go:4:14: expected ;, found b\<newline>''\<rparr>, [])"
  by (simp add: process_line_def ev0_def exec_def write_go_def s0_def fresh_def w0_def
        rejects_def eof_msg_def Let_def str_defs)

end
